theory Spec2Isabelle
  imports Complex_Main "HOL-Library.Log_Nat"
begin

section \<open>Moonraker monitor: the polling and display engine\<close>

text \<open>
  A shallow embedding of \<^verbatim>\<open>src/actions/moonraker-action.ts\<close>.

  Conventions of the embedding.
  \<^item> A JavaScript string is a \<open>string\<close>; one \<open>char\<close> stands for one code unit, so
    strings are those of code units below 256 (ASCII and Latin-1). The degree sign
    U+00B0 is the single char \<open>0xB0\<close>. Case conversion is that of JavaScript on these
    code units, but for the micro sign and the y with diaeresis, whose upper-case forms
    are code units above 255: the model leaves these two as they are.
  \<^item> A JavaScript number is a double. A finite double is the rational it denotes
    (\<open>rat\<close>); settings and snapshots arrive as JSON, which has no NaN, and their
    numbers are taken to be finite. A product is the exact product rounded to the
    nearest double, ties to even, or an infinity (\<open>js_times\<close>). \<^verbatim>\<open>Math.round\<close> is
    exact. Layer counters are integers; the temperatures and targets of a heater record
    are numbers, as the interface declares them.
  \<^item> An optional field \<open>f?: T\<close> is a \<open>T option\<close>: a value of the declared type or
    \<^verbatim>\<open>undefined\<close>. The truthiness tests of the source are written out (\<^verbatim>\<open>undefined\<close>,
    the empty string, \<open>0\<close> and \<open>false\<close> are falsy).
  \<^item> An integer is rendered in decimal, as template literals do for integers of
    magnitude up to \<open>2^53\<close>. Beyond that JavaScript prints the shortest digits that give
    the same double, which the model does not follow.
  \<^item> A decimal written in an example, such as \<open>59.6\<close>, is the exact rational; where it
    matters which double the payload parses to, the double is written out.
\<close>

subsection \<open>Strings\<close>

definition nl :: string where
  "nl = [CHR 0x0A]"

definition degree :: string where
  "degree = [CHR 0xB0]"

text \<open>
  The letters that have another case: the ASCII letters, and the Latin-1 letters from
  U+00C0 to U+00DE (without the multiplication sign) with their lower-case forms
  from U+00E0 to U+00FE (without the division sign).
\<close>

definition upper_letters :: string where
  "upper_letters =
     ''ABCDEFGHIJKLMNOPQRSTUVWXYZ'' @
     [
      CHR 0xC0, CHR 0xC1, CHR 0xC2, CHR 0xC3, CHR 0xC4, CHR 0xC5, CHR 0xC6, CHR 0xC7,
      CHR 0xC8, CHR 0xC9, CHR 0xCA, CHR 0xCB, CHR 0xCC, CHR 0xCD, CHR 0xCE, CHR 0xCF,
      CHR 0xD0, CHR 0xD1, CHR 0xD2, CHR 0xD3, CHR 0xD4, CHR 0xD5, CHR 0xD6, CHR 0xD8,
      CHR 0xD9, CHR 0xDA, CHR 0xDB, CHR 0xDC, CHR 0xDD, CHR 0xDE]"

definition lower_letters :: string where
  "lower_letters =
     ''abcdefghijklmnopqrstuvwxyz'' @
     [
      CHR 0xE0, CHR 0xE1, CHR 0xE2, CHR 0xE3, CHR 0xE4, CHR 0xE5, CHR 0xE6, CHR 0xE7,
      CHR 0xE8, CHR 0xE9, CHR 0xEA, CHR 0xEB, CHR 0xEC, CHR 0xED, CHR 0xEE, CHR 0xEF,
      CHR 0xF0, CHR 0xF1, CHR 0xF2, CHR 0xF3, CHR 0xF4, CHR 0xF5, CHR 0xF6, CHR 0xF8,
      CHR 0xF9, CHR 0xFA, CHR 0xFB, CHR 0xFC, CHR 0xFD, CHR 0xFE]"

definition lower_char :: "char \<Rightarrow> char" where
  "lower_char c = (case map_of (zip upper_letters lower_letters) c of Some d \<Rightarrow> d | None \<Rightarrow> c)"

text \<open>The upper-case form of one code unit; that of the sharp s is two code units.\<close>

definition upper_char :: "char \<Rightarrow> string" where
  "upper_char c =
     (if c = CHR 0xDF then ''SS''
      else (case map_of (zip lower_letters upper_letters) c of Some d \<Rightarrow> [d] | None \<Rightarrow> [c]))"

definition toLowerCase :: "string \<Rightarrow> string" where
  "toLowerCase s = map lower_char s"

definition toUpperCase :: "string \<Rightarrow> string" where
  "toUpperCase s = concat (map upper_char s)"

text \<open>\<^verbatim>\<open>s.charAt(0)\<close> is the empty string when \<open>s\<close> is empty.\<close>

definition charAt0 :: "string \<Rightarrow> string" where
  "charAt0 s = take 1 s"

text \<open>\<^verbatim>\<open>s.slice(1)\<close> and \<^verbatim>\<open>s.slice(0, -1)\<close>.\<close>

definition slice1 :: "string \<Rightarrow> string" where
  "slice1 s = drop 1 s"

definition slice_0_minus1 :: "string \<Rightarrow> string" where
  "slice_0_minus1 s = take (length s - 1) s"

definition startsWith :: "string \<Rightarrow> string \<Rightarrow> bool" where
  "startsWith s p = (take (length p) s = p)"

definition endsWith :: "string \<Rightarrow> string \<Rightarrow> bool" where
  "endsWith s p = (length p \<le> length s \<and> drop (length s - length p) s = p)"

fun includes_str :: "string \<Rightarrow> string \<Rightarrow> bool" where
  "includes_str [] p = (p = [])"
| "includes_str (c # cs) p = (startsWith (c # cs) p \<or> includes_str cs p)"

text \<open>\<^verbatim>\<open>lines.join('\n')\<close>.\<close>

fun join_nl :: "string list \<Rightarrow> string" where
  "join_nl [] = []"
| "join_nl [l] = l"
| "join_nl (l # m # ls) = l @ nl @ join_nl (m # ls)"

subsection \<open>Numbers\<close>

definition digit_char :: "nat \<Rightarrow> char" where
  "digit_char d = ''0123456789'' ! d"

text \<open>The decimal digits of a number, put in front of \<open>acc\<close>.\<close>

function decimal_onto :: "nat \<Rightarrow> string \<Rightarrow> string" where
  "decimal_onto n acc =
     (if n div 10 = 0 then digit_char (n mod 10) # acc
      else decimal_onto (n div 10) (digit_char (n mod 10) # acc))"
  by pat_completeness auto
termination
  by (relation "measure fst") auto

declare decimal_onto.simps [simp del]

definition nat_text :: "nat \<Rightarrow> string" where
  "nat_text n = decimal_onto n []"

text \<open>An integer in a template literal; minus zero is the integer zero and prints as \<open>0\<close>.\<close>

definition int_text :: "int \<Rightarrow> string" where
  "int_text i = (if 0 \<le> i then nat_text (nat i) else CHR ''-'' # nat_text (nat (- i)))"

text \<open>\<^verbatim>\<open>Math.round\<close> rounds to the nearest integer, a tie towards plus infinity.\<close>

definition Math_round :: "rat \<Rightarrow> int" where
  "Math_round x = \<lfloor>x + 1 / 2\<rfloor>"

text \<open>
  Doubles. \<open>binary_exponent x\<close> is the integer \<open>e\<close> with \<open>2^e \<le> |x| < 2^(e+1)\<close>, for
  \<open>x\<close> other than zero. \<open>round_double\<close> is the rounding of IEEE 754 binary64 to
  nearest, ties to even: 53 significant bits, the least exponent of a unit in the last
  place \<open>-1074\<close>, and an infinity when the rounded value reaches \<open>2^1024\<close>, that is when
  its exponent is 1024 or more. The sign of a zero is not kept; it does not show in a
  template literal.
\<close>

datatype js_number = Finite rat | PosInfinity | NegInfinity

definition binary_exponent :: "rat \<Rightarrow> int" where
  "binary_exponent x =
     (let (a, b) = quotient_of \<bar>x\<bar>;
          k = bitlen a - bitlen b
      in if 2 powi k \<le> \<bar>x\<bar> then k else k - 1)"

definition round_half_even :: "rat \<Rightarrow> int" where
  "round_half_even x =
     (let f = \<lfloor>x\<rfloor>;
          d = x - of_int f
      in if d < 1 / 2 then f
         else if 1 / 2 < d then f + 1
         else if even f then f else f + 1)"

definition round_double :: "rat \<Rightarrow> js_number" where
  "round_double x =
     (if x = 0 then Finite 0
      else
        (let q = max (binary_exponent x - 52) (- 1074);
             y = of_int (round_half_even (x / 2 powi q)) * 2 powi q
         in if 1024 \<le> binary_exponent y then (if 0 < x then PosInfinity else NegInfinity)
            else Finite y))"

text \<open>The product \<^verbatim>\<open>x * y\<close> of two finite doubles.\<close>

definition js_times :: "rat \<Rightarrow> rat \<Rightarrow> js_number" where
  "js_times x y = round_double (x * y)"

text \<open>\<^verbatim>\<open>`${Math.round(n)}`\<close>: \<^verbatim>\<open>Math.round\<close> keeps an infinity.\<close>

definition rounded_text :: "js_number \<Rightarrow> string" where
  "rounded_text n =
     (case n of
        Finite x \<Rightarrow> int_text (Math_round x)
      | PosInfinity \<Rightarrow> ''Infinity''
      | NegInfinity \<Rightarrow> ''-Infinity'')"

subsection \<open>Settings and the printer snapshot\<close>

record MoonrakerSettings =
  baseUrl :: "string option"
  port :: "string option"
  apiKey :: "string option"
  pollingInterval :: "rat option"
  displayBedTemp :: "bool option"
  displayHotendTemp :: "bool option"
  displayPrintStatus :: "bool option"
  displayPrintProgress :: "bool option"
  displayLayerInfo :: "bool option"

record heater =
  temperature :: rat
  target :: rat

record layer_info =
  current_layer :: "int option"
  total_layer :: "int option"

text \<open>
  \<open>state\<close> and \<open>progress\<close> are declared mandatory in the interface, but the source reads
  them with \<^verbatim>\<open>?.\<close> and compares with \<^verbatim>\<open>undefined\<close>, so they are optional here.
  The test on \<open>progress\<close> is \<^verbatim>\<open>!== undefined\<close>, which a JSON \<^verbatim>\<open>null\<close> passes, so the field
  holds a number or \<^verbatim>\<open>null\<close> when it is there; in a product \<^verbatim>\<open>null\<close> counts as 0. The other
  fields hold values of their declared types when they are there.
\<close>

datatype json_number = Null | Number rat

fun to_number :: "json_number \<Rightarrow> rat" where
  "to_number Null = 0"
| "to_number (Number x) = x"

record print_stats =
  state :: "string option"
  filename :: "string option"
  info :: "layer_info option"

record virtual_sdcard =
  progress :: "json_number option"

record display_status =
  message :: "string option"

record MoonrakerPrinterObjects =
  heater_bed :: "heater option"
  extruder :: "heater option"
  print_stats :: "print_stats option"
  virtual_sdcard :: "virtual_sdcard option"
  display_status :: "display_status option"

text \<open>Truthiness of an optional boolean and of an optional string.\<close>

definition truthy_bool :: "bool option \<Rightarrow> bool" where
  "truthy_bool b = (b = Some True)"

definition truthy_str :: "string option \<Rightarrow> bool" where
  "truthy_str s = (case s of None \<Rightarrow> False | Some x \<Rightarrow> x \<noteq> [])"

subsection \<open>The display reducer (\<^verbatim>\<open>updateKeyDisplay\<close>, title part)\<close>

text \<open>\<^verbatim>\<open>status.print_stats?.state?.toLowerCase()\<close>\<close>

definition currentPrintState :: "MoonrakerPrinterObjects \<Rightarrow> string option" where
  "currentPrintState status =
     (case print_stats status of
        None \<Rightarrow> None
      | Some ps \<Rightarrow> (case state ps of None \<Rightarrow> None | Some s \<Rightarrow> Some (toLowerCase s)))"

definition displayablePrintState :: "MoonrakerPrinterObjects \<Rightarrow> string" where
  "displayablePrintState status =
     (let d = (case currentPrintState status of
                 None \<Rightarrow> ''Unknown''
               | Some c \<Rightarrow> if c \<noteq> [] then toUpperCase (charAt0 c) @ slice1 c else ''Unknown'')
      in if d = ''Standby'' then ''Idle'' else d)"

definition printing_or_paused :: "MoonrakerPrinterObjects \<Rightarrow> bool" where
  "printing_or_paused status =
     (currentPrintState status = Some ''printing'' \<or> currentPrintState status = Some ''paused'')"

definition heater_text :: "heater \<Rightarrow> string" where
  "heater_text h =
     int_text (Math_round (temperature h)) @ ''/'' @ int_text (Math_round (target h))
       @ degree"

text \<open>
  The pattern \<^verbatim>\<open>/Layer\s*(\d+)\s*\/\s*(\d+)/i\<close>. White space, digits and the slash are
  disjoint classes, so the greedy match at a position is the only one there;
  \<^verbatim>\<open>String.match\<close> returns the leftmost position that matches.
\<close>

definition is_digit :: "char \<Rightarrow> bool" where
  "is_digit c = (c \<in> set ''0123456789'')"

definition is_space :: "char \<Rightarrow> bool" where
  "is_space c =
     (c \<in> set [CHR 0x09, CHR 0x0A, CHR 0x0B, CHR 0x0C, CHR 0x0D, CHR 0x20, CHR 0xA0])"

definition layer_match_here :: "string \<Rightarrow> (string \<times> string) option" where
  "layer_match_here s =
     (if toLowerCase (take 5 s) = ''layer'' then
        (let r1 = dropWhile is_space (drop 5 s);
             d1 = takeWhile is_digit r1;
             r2 = dropWhile is_space (dropWhile is_digit r1)
         in if d1 = [] then None
            else (case r2 of
                    [] \<Rightarrow> None
                  | c # r3 \<Rightarrow>
                      if c = CHR ''/'' then
                        (let d2 = takeWhile is_digit (dropWhile is_space r3)
                         in if d2 = [] then None else Some (d1, d2))
                      else None))
      else None)"

fun layer_match :: "string \<Rightarrow> (string \<times> string) option" where
  "layer_match [] = None"
| "layer_match (c # cs) =
     (case layer_match_here (c # cs) of Some m \<Rightarrow> Some m | None \<Rightarrow> layer_match cs)"

definition explicit_layers :: "MoonrakerPrinterObjects \<Rightarrow> (int \<times> int) option" where
  "explicit_layers status =
     (case print_stats status of
        None \<Rightarrow> None
      | Some ps \<Rightarrow>
          (case info ps of
             None \<Rightarrow> None
           | Some i \<Rightarrow>
               (case (current_layer i, total_layer i) of
                  (Some c, Some t) \<Rightarrow> Some (c, t)
                | _ \<Rightarrow> None)))"

definition status_message :: "MoonrakerPrinterObjects \<Rightarrow> string option" where
  "status_message status =
     (case display_status status of None \<Rightarrow> None | Some d \<Rightarrow> message d)"

definition layerText :: "MoonrakerPrinterObjects \<Rightarrow> string option" where
  "layerText status =
     (case explicit_layers status of
        Some (c, t) \<Rightarrow> Some (''L:'' @ int_text c @ ''/'' @ int_text t)
      | None \<Rightarrow>
          (case status_message status of
             None \<Rightarrow> None
           | Some m \<Rightarrow>
               if m \<noteq> [] \<and> includes_str (toLowerCase m) ''layer'' then
                 (case layer_match m of
                    None \<Rightarrow> None
                  | Some (a, b) \<Rightarrow> Some (''L:'' @ a @ ''/'' @ b))
               else None))"

text \<open>The five conditional pushes onto \<^verbatim>\<open>titleLines\<close>, in the order of the source.\<close>

definition push_status :: "MoonrakerSettings \<Rightarrow> MoonrakerPrinterObjects \<Rightarrow> string list \<Rightarrow> string list" where
  "push_status settings status ls =
     (if truthy_bool (displayPrintStatus settings) \<and> truthy_str (currentPrintState status)
      then ls @ [displayablePrintState status] else ls)"

definition push_bed :: "MoonrakerSettings \<Rightarrow> MoonrakerPrinterObjects \<Rightarrow> string list \<Rightarrow> string list" where
  "push_bed settings status ls =
     (case heater_bed status of
        Some h \<Rightarrow> if truthy_bool (displayBedTemp settings) then ls @ [''B:'' @ heater_text h] else ls
      | None \<Rightarrow> ls)"

definition push_hotend :: "MoonrakerSettings \<Rightarrow> MoonrakerPrinterObjects \<Rightarrow> string list \<Rightarrow> string list" where
  "push_hotend settings status ls =
     (case extruder status of
        Some h \<Rightarrow> if truthy_bool (displayHotendTemp settings) then ls @ [''H:'' @ heater_text h] else ls
      | None \<Rightarrow> ls)"

definition sdcard_progress :: "MoonrakerPrinterObjects \<Rightarrow> json_number option" where
  "sdcard_progress status =
     (case virtual_sdcard status of None \<Rightarrow> None | Some v \<Rightarrow> progress v)"

definition push_progress :: "MoonrakerSettings \<Rightarrow> MoonrakerPrinterObjects \<Rightarrow> string list \<Rightarrow> string list" where
  "push_progress settings status ls =
     (case sdcard_progress status of
        Some p \<Rightarrow>
          if truthy_bool (displayPrintProgress settings) \<and> printing_or_paused status
          then ls @ [rounded_text (js_times (to_number p) 100) @ ''%''] else ls
      | None \<Rightarrow> ls)"

definition push_layer :: "MoonrakerSettings \<Rightarrow> MoonrakerPrinterObjects \<Rightarrow> string list \<Rightarrow> string list" where
  "push_layer settings status ls =
     (if truthy_bool (displayLayerInfo settings) \<and> printing_or_paused status then
        (case layerText status of
           Some t \<Rightarrow> if t \<noteq> [] then ls @ [t] else ls
         | None \<Rightarrow> ls)
      else ls)"

definition pushedLines :: "MoonrakerSettings \<Rightarrow> MoonrakerPrinterObjects \<Rightarrow> string list" where
  "pushedLines settings status =
     push_layer settings status
       (push_progress settings status
          (push_hotend settings status
             (push_bed settings status
                (push_status settings status []))))"

definition titleLines :: "MoonrakerSettings \<Rightarrow> MoonrakerPrinterObjects \<Rightarrow> string list" where
  "titleLines settings status =
     (let ls = pushedLines settings status
      in if length ls = 0 then
           (if truthy_str (currentPrintState status) then ls @ [displayablePrintState status]
            else ls @ [''No Data''])
         else ls)"

text \<open>Icon selection: the file name handed to \<^verbatim>\<open>getIconRelativePath\<close>, if any.\<close>

definition iconFileName :: "MoonrakerPrinterObjects \<Rightarrow> string option" where
  "iconFileName status =
     (case currentPrintState status of
        None \<Rightarrow> None
      | Some c \<Rightarrow>
          if c = ''standby'' \<or> c = ''idle'' then Some ''icon_printer_standby.png''
          else if c = ''printing'' then Some ''icon_printer_printing.png''
          else if c = ''paused'' then Some ''icon_printer_paused.png''
          else if c = ''complete'' then Some ''icon_printer_complete.png''
          else if c = ''error'' then Some ''icon_printer_error.png''
          else None)"

subsection \<open>Settings validation and endpoint construction\<close>

definition truthy_num :: "rat option \<Rightarrow> bool" where
  "truthy_num n = (case n of None \<Rightarrow> False | Some x \<Rightarrow> x \<noteq> 0)"

text \<open>
  \<^verbatim>\<open>!!settings.baseUrl && !!settings.pollingInterval && settings.pollingInterval > 0\<close>;
  a comparison with \<^verbatim>\<open>undefined\<close> is false.
\<close>

definition isValidSettings :: "MoonrakerSettings \<Rightarrow> bool" where
  "isValidSettings s =
     (truthy_str (baseUrl s) \<and> truthy_num (pollingInterval s)
      \<and> (case pollingInterval s of None \<Rightarrow> False | Some x \<Rightarrow> x > 0))"

text \<open>Lines 131 to 141: the address, from the base address and the optional port.\<close>

definition build_url :: "string \<Rightarrow> string option \<Rightarrow> string" where
  "build_url base prt =
     (let url = base;
          url = (case prt of
                   None \<Rightarrow> url
                 | Some p \<Rightarrow>
                     if p \<noteq> [] then
                       (if endsWith url ''/'' then slice_0_minus1 url else url) @ '':'' @ p
                     else url)
      in if \<not> startsWith url ''http://'' \<and> \<not> startsWith url ''https://''
         then ''http://'' @ url else url)"

definition query_path :: string where
  "query_path =
     ''/printer/objects/query?print_stats&heater_bed&extruder&display_status&virtual_sdcard''"

text \<open>
  \<^verbatim>\<open>settings.baseUrl!\<close>: the fetch cycle reads the base address only after
  \<open>isValidSettings\<close> has held, so it is a non-empty string there.
\<close>

definition request_url :: "MoonrakerSettings \<Rightarrow> string" where
  "request_url s = build_url (case baseUrl s of Some b \<Rightarrow> b | None \<Rightarrow> []) (port s)"

definition endpoint :: "MoonrakerSettings \<Rightarrow> string" where
  "endpoint s = request_url s @ query_path"

definition request_headers :: "MoonrakerSettings \<Rightarrow> (string \<times> string) list" where
  "request_headers s =
     [(''Content-Type'', ''application/json'')]
       @ (case apiKey s of
            None \<Rightarrow> []
          | Some k \<Rightarrow> if k \<noteq> [] then [(''X-Api-Key'', k)] else [])"

text \<open>
  The endpoint rules as the specification words them (section 4.2, rules 1 to 3): a port
  that is supplied, whatever its value, has a trailing slash of the base address stripped
  and \<open>:port\<close> appended; then the scheme is added when it lacks.
\<close>

definition spec_strip_slash :: "string \<Rightarrow> string" where
  "spec_strip_slash a = (if a \<noteq> [] \<and> last a = CHR ''/'' then butlast a else a)"

definition spec_with_scheme :: "string \<Rightarrow> string" where
  "spec_with_scheme a =
     (if startsWith a ''http://'' \<or> startsWith a ''https://'' then a else ''http://'' @ a)"

definition spec_address :: "string \<Rightarrow> string option \<Rightarrow> string" where
  "spec_address base prt =
     spec_with_scheme (case prt of None \<Rightarrow> base | Some p \<Rightarrow> spec_strip_slash base @ '':'' @ p)"

subsection \<open>The host, the network and the timers\<close>

text \<open>
  Every call that leaves the plugin is an entry of a trace, in the order of the calls.
  Warnings and errors sent to the logger are entries too; debug and info messages are
  left out. \<open>SetImage\<close> carries the icon's file name (the path prefix is fixed), or
  \<open>None\<close> for the manifest's default icon. The calls to the host and to the logger are
  taken to succeed; the network call and the reading of a response may fail.

  A timer is a number taken from a counter, as \<^verbatim>\<open>setInterval\<close> hands out a new
  object at each call. \<open>timers\<close> holds the intervals that were set and not cleared,
  each with the instance its callback closes over.

  The outcome of the one network call that a handler may make is an argument of the
  handler. A handler is a function from world to world, so it runs to its end before the
  next one starts. Handlers that overlap while one of them waits at an \<^verbatim>\<open>await\<close>
  are composed by hand from the parts of the handler before and after the await.
\<close>

type_synonym actionId = string
type_synonym timerId = nat

datatype js_error = JsError string

datatype log_entry =
    WarnNoPriorState actionId
  | WarnKeyNoState actionId
  | WarnSettingsInvalid actionId
  | WarnFetchAborted actionId
  | WarnTimerNoState timerId actionId
  | WarnTimerOld timerId actionId "timerId option"
  | ErrorApi actionId nat string string
  | ErrorException actionId string

datatype effect =
    Fetch string "(string \<times> string) list"
  | SetTitle actionId string
  | SetImage actionId "string option"
  | SetInterval timerId actionId js_number
  | ClearInterval timerId
  | Log log_entry

text \<open>
  What \<^verbatim>\<open>data.result.status\<close> is after \<^verbatim>\<open>response.json()\<close>: \<open>NoResult\<close> when
  reading it throws (the body has no \<open>result\<close> object), \<open>NoStatus\<close> when it is
  \<^verbatim>\<open>undefined\<close> or \<^verbatim>\<open>null\<close>, so that the reducer throws at its first read.
\<close>

datatype envelope = NoResult | NoStatus | Status MoonrakerPrinterObjects

record response =
  status_code :: nat
  statusText :: string
  text_result :: "js_error + string"
  json_result :: "js_error + envelope"

datatype fetch_result = Rejected js_error | Responded response

text \<open>\<^verbatim>\<open>response.ok\<close>: the status is in the range 200 to 299.\<close>

definition response_ok :: "response \<Rightarrow> bool" where
  "response_ok r = (200 \<le> status_code r \<and> status_code r \<le> 299)"

record instance_state =
  settings :: MoonrakerSettings
  timerId :: "timerId option"

record world =
  actionStates :: "actionId \<rightharpoonup> instance_state"
  timers :: "timerId \<rightharpoonup> actionId"
  fresh :: timerId
  trace :: "effect list"

definition init :: world where
  "init = \<lparr>actionStates = Map.empty, timers = Map.empty, fresh = 0, trace = []\<rparr>"

definition emit :: "effect \<Rightarrow> world \<Rightarrow> world" where
  "emit e w = w\<lparr>trace := trace w @ [e]\<rparr>"

definition error_message :: "js_error \<Rightarrow> string" where
  "error_message e = (case e of JsError m \<Rightarrow> m)"

subsection \<open>The fetch cycle\<close>

definition updateKeyDisplay ::
  "MoonrakerPrinterObjects \<Rightarrow> actionId \<Rightarrow> MoonrakerSettings \<Rightarrow> world \<Rightarrow> world" where
  "updateKeyDisplay status a s w =
     emit (SetImage a (iconFileName status))
       (emit (SetTitle a (join_nl (titleLines s status))) w)"

text \<open>The body of the \<^verbatim>\<open>try\<close> block: the exception it ends with, if any, and the world.\<close>

definition fetch_try ::
  "actionId \<Rightarrow> MoonrakerSettings \<Rightarrow> fetch_result \<Rightarrow> world \<Rightarrow> js_error option \<times> world" where
  "fetch_try a s net w =
     (let w1 = emit (Fetch (endpoint s) (request_headers s)) w
      in case net of
           Rejected e \<Rightarrow> (Some e, w1)
         | Responded r \<Rightarrow>
             if \<not> response_ok r then
               (let w2 = emit (SetTitle a (''Error:'' @ nl @ nat_text (status_code r))) w1
                in case text_result r of
                     Inl e \<Rightarrow> (Some e, w2)
                   | Inr body \<Rightarrow>
                       (None, emit (Log (ErrorApi a (status_code r) (statusText r) body)) w2))
             else
               (case json_result r of
                  Inl e \<Rightarrow> (Some e, w1)
                | Inr NoResult \<Rightarrow>
                    (Some (JsError ''TypeError: data.result is undefined''), w1)
                | Inr NoStatus \<Rightarrow>
                    (Some (JsError ''TypeError: status is undefined''), w1)
                | Inr (Status st) \<Rightarrow> (None, updateKeyDisplay st a s w1)))"

definition fetchDataAndUpdateKey ::
  "actionId \<Rightarrow> MoonrakerSettings \<Rightarrow> fetch_result \<Rightarrow> world \<Rightarrow> js_error option \<times> world" where
  "fetchDataAndUpdateKey a s net w =
     (if \<not> isValidSettings s then
        (None, emit (Log (WarnFetchAborted a)) (emit (SetTitle a (''Settings'' @ nl @ ''Invalid'')) w))
      else
        (case fetch_try a s net w of
           (None, w1) \<Rightarrow> (None, w1)
         | (Some e, w1) \<Rightarrow>
             (None, emit (Log (ErrorException a (error_message e)))
                      (emit (SetTitle a (''Fetch'' @ nl @ ''Error'')) w1))))"

subsection \<open>The instance scheduler\<close>

definition stopPollingForAction :: "actionId \<Rightarrow> world \<Rightarrow> world" where
  "stopPollingForAction a w =
     (case actionStates w a of
        None \<Rightarrow> w
      | Some st \<Rightarrow>
          (case timerId st of
             None \<Rightarrow> w
           | Some t \<Rightarrow>
               w\<lparr>timers := (timers w)(t := None),
                 actionStates := (actionStates w)(a \<mapsto> st\<lparr>timerId := None\<rparr>),
                 trace := trace w @ [ClearInterval t]\<rparr>))"

text \<open>\<^verbatim>\<open>setInterval\<close>: a new timer, active from now on.\<close>

definition setInterval :: "actionId \<Rightarrow> js_number \<Rightarrow> world \<Rightarrow> timerId \<times> world" where
  "setInterval a ms w =
     (fresh w,
      w\<lparr>timers := (timers w)(fresh w \<mapsto> a),
        fresh := Suc (fresh w),
        trace := trace w @ [SetInterval (fresh w) a ms]\<rparr>)"

text \<open>
  The valid branch of \<^verbatim>\<open>applySettingsAndStartPolling\<close> (lines 86 to 103): the first
  fetch cycle, which the handler awaits, then the interval. Its last statement,
  \<^verbatim>\<open>this.actionStates.get(actionId)!.timerId = timerId\<close>, throws when the instance has
  no record; the interval is set by then.
\<close>

definition start_polling ::
  "actionId \<Rightarrow> MoonrakerSettings \<Rightarrow> fetch_result \<Rightarrow> world \<Rightarrow> js_error option \<times> world" where
  "start_polling a s net w1 =
     (case fetchDataAndUpdateKey a s net w1 of
        (Some e, w2) \<Rightarrow> (Some e, w2)
      | (None, w2) \<Rightarrow>
          (let intervalSeconds =
                 (case pollingInterval s of
                    None \<Rightarrow> 5
                  | Some x \<Rightarrow> if x \<noteq> 0 then x else 5);
               (t, w3) = setInterval a (js_times intervalSeconds 1000) w2
           in case actionStates w3 a of
                None \<Rightarrow>
                  (Some (JsError ''TypeError: no state to store the timer in''), w3)
              | Some st \<Rightarrow>
                  (None, w3\<lparr>actionStates := (actionStates w3)(a \<mapsto> st\<lparr>timerId := Some t\<rparr>)\<rparr>)))"

definition applySettingsAndStartPolling ::
  "actionId \<Rightarrow> MoonrakerSettings \<Rightarrow> fetch_result \<Rightarrow> world \<Rightarrow> js_error option \<times> world" where
  "applySettingsAndStartPolling a s net w =
     (let w1 = stopPollingForAction a w
      in if isValidSettings s then start_polling a s net w1
         else
           (None, emit (SetTitle a (''Settings'' @ nl @ ''Required''))
                    (emit (Log (WarnSettingsInvalid a)) w1)))"

text \<open>The callback of the interval \<open>t\<close> that was set for the instance \<open>a\<close> (lines 91 to 102).\<close>

definition timer_callback ::
  "actionId \<Rightarrow> timerId \<Rightarrow> fetch_result \<Rightarrow> world \<Rightarrow> js_error option \<times> world" where
  "timer_callback a t net w =
     (case actionStates w a of
        None \<Rightarrow> (None, emit (Log (WarnTimerNoState t a)) w)
      | Some st \<Rightarrow>
          if timerId st = Some t then fetchDataAndUpdateKey a (settings st) net w
          else (None, emit (Log (WarnTimerOld t a (timerId st))) w))"

definition emptySettings :: MoonrakerSettings where
  "emptySettings =
     \<lparr>baseUrl = None, port = None, apiKey = None, pollingInterval = None,
      displayBedTemp = None, displayHotendTemp = None, displayPrintStatus = None,
      displayPrintProgress = None, displayLayerInfo = None\<rparr>"

text \<open>\<^verbatim>\<open>event.payload.settings || {}\<close>, then the record is replaced by a new one.\<close>

definition onWillAppear ::
  "actionId \<Rightarrow> MoonrakerSettings option \<Rightarrow> fetch_result \<Rightarrow> world \<Rightarrow> js_error option \<times> world" where
  "onWillAppear a payload net w =
     (let s = (case payload of None \<Rightarrow> emptySettings | Some x \<Rightarrow> x);
          w1 = w\<lparr>actionStates := (actionStates w)(a \<mapsto> \<lparr>settings = s, timerId = None\<rparr>)\<rparr>
      in applySettingsAndStartPolling a s net w1)"

definition onWillDisappear :: "actionId \<Rightarrow> world \<Rightarrow> js_error option \<times> world" where
  "onWillDisappear a w =
     (let w1 = stopPollingForAction a w
      in (None, w1\<lparr>actionStates := (actionStates w1)(a := None)\<rparr>))"

text \<open>Lines 55 to 64 of \<^verbatim>\<open>onDidReceiveSettings\<close>: the new settings go into the record.\<close>

definition store_settings :: "actionId \<Rightarrow> MoonrakerSettings \<Rightarrow> world \<Rightarrow> world" where
  "store_settings a newSettings w =
     (case actionStates w a of
        Some st \<Rightarrow> w\<lparr>actionStates := (actionStates w)(a \<mapsto> st\<lparr>settings := newSettings\<rparr>)\<rparr>
      | None \<Rightarrow>
          (emit (Log (WarnNoPriorState a)) w)
            \<lparr>actionStates := (actionStates w)(a \<mapsto> \<lparr>settings = newSettings, timerId = None\<rparr>)\<rparr>)"

definition onDidReceiveSettings ::
  "actionId \<Rightarrow> MoonrakerSettings \<Rightarrow> fetch_result \<Rightarrow> world \<Rightarrow> js_error option \<times> world" where
  "onDidReceiveSettings a newSettings net w =
     applySettingsAndStartPolling a newSettings net (store_settings a newSettings w)"

definition onKeyDown :: "actionId \<Rightarrow> fetch_result \<Rightarrow> world \<Rightarrow> js_error option \<times> world" where
  "onKeyDown a net w =
     (case actionStates w a of
        Some st \<Rightarrow> fetchDataAndUpdateKey a (settings st) net w
      | None \<Rightarrow> (None, emit (Log (WarnKeyNoState a)) w))"

text \<open>Counting the calls of a kind in a trace.\<close>

fun is_fetch :: "effect \<Rightarrow> bool" where
  "is_fetch (Fetch u h) = True"
| "is_fetch e = False"

fun is_present :: "effect \<Rightarrow> bool" where
  "is_present (SetTitle a t) = True"
| "is_present (SetImage a i) = True"
| "is_present e = False"

fun is_schedule :: "effect \<Rightarrow> bool" where
  "is_schedule (SetInterval t a ms) = True"
| "is_schedule e = False"

definition fetch_count :: "effect list \<Rightarrow> nat" where
  "fetch_count tr = length (filter is_fetch tr)"

definition present_count :: "effect list \<Rightarrow> nat" where
  "present_count tr = length (filter is_present tr)"

definition schedule_count :: "effect list \<Rightarrow> nat" where
  "schedule_count tr = length (filter is_schedule tr)"

subsection \<open>The scheduler's invariant\<close>

text \<open>
  Every active interval is the one that the record of its instance holds; the timer that a
  record holds is active; and every active interval was handed out by the counter. So an
  instance has at most one active interval, the stored one.
\<close>

definition timers_owned :: "world \<Rightarrow> bool" where
  "timers_owned w =
     (\<forall>t a. timers w t = Some a \<longrightarrow> (\<exists>st. actionStates w a = Some st \<and> timerId st = Some t))"

definition timers_active :: "world \<Rightarrow> bool" where
  "timers_active w =
     (\<forall>a st t. actionStates w a = Some st \<and> timerId st = Some t \<longrightarrow> timers w t = Some a)"

definition timers_known :: "world \<Rightarrow> bool" where
  "timers_known w = (\<forall>t a. timers w t = Some a \<longrightarrow> t < fresh w)"

definition scheduler_inv :: "world \<Rightarrow> bool" where
  "scheduler_inv w = (timers_owned w \<and> timers_active w \<and> timers_known w)"

subsection \<open>Example inputs\<close>

text \<open>The settings of a key with all five display toggles on, and with none.\<close>

definition all_toggles_on :: "MoonrakerSettings \<Rightarrow> MoonrakerSettings" where
  "all_toggles_on s =
     s\<lparr>displayBedTemp := Some True, displayHotendTemp := Some True,
       displayPrintStatus := Some True, displayPrintProgress := Some True,
       displayLayerInfo := Some True\<rparr>"

definition local_settings :: MoonrakerSettings where
  "local_settings =
     all_toggles_on
       (emptySettings\<lparr>baseUrl := Some ''mainsailos.local/'', port := Some ''7125'',
          pollingInterval := Some 5\<rparr>)"

text \<open>The snapshot of the specification's round-trip scenario.\<close>

definition printing_snapshot :: MoonrakerPrinterObjects where
  "printing_snapshot =
     \<lparr>heater_bed = Some \<lparr>temperature = 59.6, target = 60\<rparr>,
      extruder = Some \<lparr>temperature = 204.4, target = 205\<rparr>,
      print_stats = Some \<lparr>state = Some ''printing'', filename = None,
                           info = Some \<lparr>current_layer = Some 12, total_layer = Some 100\<rparr>\<rparr>,
      virtual_sdcard = Some \<lparr>progress = Some (Number 0.12)\<rparr>,
      display_status = None\<rparr>"

text \<open>A snapshot whose only content is a state, here the empty string.\<close>

definition state_only :: "string \<Rightarrow> MoonrakerPrinterObjects" where
  "state_only x =
     \<lparr>heater_bed = None, extruder = None,
      print_stats = Some \<lparr>state = Some x, filename = None, info = None\<rparr>,
      virtual_sdcard = None, display_status = None\<rparr>"

text \<open>
  The fallback as the specification words it (section 4.4, step 8): the state label when
  the snapshot has a state, the placeholder when it has none.
\<close>

definition spec_state_present :: "MoonrakerPrinterObjects \<Rightarrow> bool" where
  "spec_state_present status =
     (case print_stats status of None \<Rightarrow> False | Some ps \<Rightarrow> state ps \<noteq> None)"

definition spec_fallback :: "MoonrakerPrinterObjects \<Rightarrow> string list" where
  "spec_fallback status =
     (if spec_state_present status then [displayablePrintState status] else [''No Data''])"

text \<open>
  The progress line as the specification words it (section 4.4, step 6): the fraction
  times 100, rounded to the nearest integer, then the percent sign.
\<close>

definition spec_progress_line :: "rat \<Rightarrow> string" where
  "spec_progress_line p = int_text (Math_round (p * 100)) @ ''%''"

text \<open>
  A snapshot with a state and a progress fraction only, and the doubles that
  \<^verbatim>\<open>JSON.parse\<close> yields for \<open>0.155\<close> and \<open>0.285\<close>.
\<close>

definition progress_snapshot :: "string \<Rightarrow> rat \<Rightarrow> MoonrakerPrinterObjects" where
  "progress_snapshot x p =
     \<lparr>heater_bed = None, extruder = None,
      print_stats = Some \<lparr>state = Some x, filename = None, info = None\<rparr>,
      virtual_sdcard = Some \<lparr>progress = Some (Number p)\<rparr>, display_status = None\<rparr>"

definition double_0155 :: rat where
  "double_0155 = 5584463537939415 / 36028797018963968"

definition double_0285 :: rat where
  "double_0285 = 5134103575202365 / 18014398509481984"

text \<open>Valid settings whose port is the empty string, as a cleared text field leaves it.\<close>

definition blank_port_settings :: MoonrakerSettings where
  "blank_port_settings =
     emptySettings\<lparr>baseUrl := Some ''printer.local/'', port := Some [],
       pollingInterval := Some 5\<rparr>"

text \<open>Outcomes of the network call: a good answer, a 401, a refused connection, a body that is no JSON.\<close>

definition ok_response :: fetch_result where
  "ok_response =
     Responded \<lparr>status_code = 200, statusText = ''OK'', text_result = Inr [],
                json_result = Inr (Status printing_snapshot)\<rparr>"

definition unauthorized :: response where
  "unauthorized =
     \<lparr>status_code = 401, statusText = ''Unauthorized'', text_result = Inr ''access denied'',
      json_result = Inr NoResult\<rparr>"

definition refused :: fetch_result where
  "refused = Rejected (JsError ''fetch failed'')"

definition garbled :: fetch_result where
  "garbled =
     Responded \<lparr>status_code = 200, statusText = ''OK'', text_result = Inr ''<html>'',
                json_result = Inl (JsError ''Unexpected token < in JSON at position 0'')\<rparr>"

text \<open>The world after one key has appeared with valid settings: it polls with timer 0.\<close>

definition polling_world :: world where
  "polling_world = snd (onWillAppear ''key'' (Some local_settings) ok_response init)"

text \<open>
  Two settings changes of the polling key, the second of which arrives while the first
  awaits its fetch cycle in \<open>start_polling\<close>: each handler stores its settings and stops
  the timer it finds, then the first resumes, then the second. The trace entries of a
  fetch cycle stay together with the part after the await.
\<close>

definition slow_settings :: MoonrakerSettings where
  "slow_settings = local_settings\<lparr>pollingInterval := Some 10\<rparr>"

definition overlapped_changes :: world where
  "overlapped_changes =
     (let first_waits = stopPollingForAction ''key'' (store_settings ''key'' local_settings polling_world);
          second_waits = stopPollingForAction ''key'' (store_settings ''key'' slow_settings first_waits);
          first_done = snd (start_polling ''key'' local_settings ok_response second_waits)
      in snd (start_polling ''key'' slow_settings ok_response first_done))"

section \<open>Properties\<close>

subsection \<open>The display reducer\<close>

lemma Math_round_nearest: "\<bar>of_int (Math_round x) - x\<bar> \<le> 1 / 2"
  unfolding Math_round_def by linarith

lemma toLowerCase_Nil_iff [simp]: "toLowerCase x = [] \<longleftrightarrow> x = []"
  by (simp add: toLowerCase_def)

lemma push_status_append: "push_status s st ls = ls @ push_status s st []"
  by (simp add: push_status_def)

lemma push_bed_append: "push_bed s st ls = ls @ push_bed s st []"
  by (simp add: push_bed_def split: option.splits)

lemma push_hotend_append: "push_hotend s st ls = ls @ push_hotend s st []"
  by (simp add: push_hotend_def split: option.splits)

lemma push_progress_append: "push_progress s st ls = ls @ push_progress s st []"
  by (auto simp add: push_progress_def split: option.splits)

lemma push_layer_append: "push_layer s st ls = ls @ push_layer s st []"
  by (simp add: push_layer_def split: option.splits)

lemma toggles_on:
  "displayBedTemp (all_toggles_on s) = Some True"
  "displayHotendTemp (all_toggles_on s) = Some True"
  "displayPrintStatus (all_toggles_on s) = Some True"
  "displayPrintProgress (all_toggles_on s) = Some True"
  "displayLayerInfo (all_toggles_on s) = Some True"
  by (simp_all add: all_toggles_on_def)

lemma titleLines_toggles_only:
  "titleLines (all_toggles_on s) st = titleLines (all_toggles_on emptySettings) st"
  unfolding titleLines_def pushedLines_def push_status_def push_bed_def push_hotend_def
    push_progress_def push_layer_def toggles_on
  by (rule refl)

lemma titleLines_printing_snapshot:
  "titleLines (all_toggles_on emptySettings) printing_snapshot =
     [''Printing'', ''B:60/60'' @ degree, ''H:204/205'' @ degree, ''12%'', ''L:12/100'']"
  by code_simp

text \<open>
  Claim C2. For the snapshot of the round-trip scenario (bed 59.6 of 60, hot end 204.4 of
  205, state \<open>printing\<close>, layer 12 of 100, progress 0.12) and settings with all five
  display toggles on, the reducer's lines are exactly \<open>Printing\<close>, \<open>B:60/60\<close> with the
  degree sign, \<open>H:204/205\<close> with the degree sign, \<open>12%\<close> and \<open>L:12/100\<close>, in this
  order, whatever the other settings are.
\<close>

theorem roundtrip_scenario:
  "titleLines (all_toggles_on s) printing_snapshot =
     [''Printing'', ''B:60/60'' @ degree, ''H:204/205'' @ degree, ''12%'', ''L:12/100'']"
  by (simp only: titleLines_toggles_only [of s] titleLines_printing_snapshot)

text \<open>
  The payload's decimals parse to doubles; for the doubles nearest \<open>59.6\<close>, \<open>204.4\<close> and
  \<open>0.12\<close> the lines are the same.
\<close>

lemma roundtrip_scenario_parsed:
  "round_double 59.6 = Finite (8387954305977549 / 140737488355328)
   \<and> round_double 204.4 = Finite (7191685654957261 / 35184372088832)
   \<and> round_double 0.12 = Finite (1080863910568919 / 9007199254740992)
   \<and> titleLines (all_toggles_on emptySettings)
        (printing_snapshot
           \<lparr>heater_bed := Some \<lparr>temperature = 8387954305977549 / 140737488355328, target = 60\<rparr>,
            extruder := Some \<lparr>temperature = 7191685654957261 / 35184372088832, target = 205\<rparr>,
            virtual_sdcard := Some \<lparr>progress = Some (Number (1080863910568919 / 9007199254740992))\<rparr>\<rparr>)
       = [''Printing'', ''B:60/60'' @ degree, ''H:204/205'' @ degree, ''12%'', ''L:12/100'']"
  by code_simp

text \<open>
  Claim C3, as amended. The reducer never returns an empty list of lines. When no toggle
  produced a line, the result is the single state label if the snapshot has a state that
  is not the empty string, and the single line \<open>No Data\<close> otherwise: a state that is
  the empty string counts as no state.
\<close>

theorem titleLines_nonempty:
  "titleLines s st \<noteq> []
   \<and> (pushedLines s st = [] \<longrightarrow>
        titleLines s st =
          (if \<exists>ps x. print_stats st = Some ps \<and> state ps = Some x \<and> x \<noteq> []
           then [displayablePrintState st] else [''No Data'']))"
  by (auto simp add: titleLines_def Let_def truthy_str_def currentPrintState_def split: option.splits)

text \<open>
  Claim C3 as stated fails on a snapshot whose state is present and is the empty string:
  with no toggle on, the result is \<open>No Data\<close>, not the state label.
\<close>

theorem blank_state_counterexample:
  "spec_state_present (state_only [])
   \<and> pushedLines emptySettings (state_only []) = []
   \<and> titleLines emptySettings (state_only []) = [''No Data'']
   \<and> titleLines emptySettings (state_only []) \<noteq> spec_fallback (state_only [])"
  by code_simp

theorem titleLines_nonempty_witness:
  "pushedLines emptySettings (state_only ''complete'') = []
   \<and> titleLines emptySettings (state_only ''complete'') = [''Complete'']"
proof -
  have a: "pushedLines emptySettings (state_only ''complete'') = []" by code_simp
  have b: "\<exists>ps x. print_stats (state_only ''complete'') = Some ps \<and> state ps = Some x \<and> x \<noteq> []"
    by (simp add: state_only_def)
  have c: "displayablePrintState (state_only ''complete'') = ''Complete''" by code_simp
  from titleLines_nonempty [of emptySettings "state_only ''complete''"] a b c
  show ?thesis by simp
qed


subsection \<open>Doubles\<close>

lemma binary_exponent_le:
  assumes "x \<noteq> 0"
  shows "2 powi binary_exponent x \<le> \<bar>x\<bar>"
proof -
  obtain a b where q: "quotient_of \<bar>x\<bar> = (a, b)" by (cases "quotient_of \<bar>x\<bar>")
  have b: "0 < b" using q by (rule quotient_of_denom_pos)
  have x: "\<bar>x\<bar> = of_int a / of_int b" using q by (rule quotient_of_div)
  have "0 < \<bar>x\<bar>" using assms by simp
  with x b have a: "0 < a" by (simp add: zero_less_divide_iff)
  let ?k = "bitlen a - bitlen b"
  show ?thesis
  proof (cases "2 powi ?k \<le> \<bar>x\<bar>")
    case True
    then show ?thesis by (simp add: binary_exponent_def q)
  next
    case False
    have la: "1 \<le> bitlen a" and lb: "1 \<le> bitlen b"
      using a b by (simp_all add: bitlen_alt_def)
    have low: "(2::int) ^ nat (bitlen a - 1) \<le> a" and high: "b < 2 ^ nat (bitlen b)"
      using bitlen_bounds [OF a] bitlen_bounds [OF b] by simp_all
    have "(2::rat) powi (?k - 1) = 2 powi (bitlen a - 1) / 2 powi bitlen b"
      using power_int_diff [of "2::rat" "bitlen a - 1" "bitlen b"] by (simp add: algebra_simps)
    also have "\<dots> = 2 ^ nat (bitlen a - 1) / 2 ^ nat (bitlen b)"
      using la lb by (simp add: power_int_def)
    also have "\<dots> \<le> of_int a / 2 ^ nat (bitlen b)"
    proof -
      have "(2::rat) ^ nat (bitlen a - 1) \<le> of_int a"
        using low by (metis of_int_le_iff of_int_numeral of_int_power)
      then show ?thesis by (simp add: divide_right_mono)
    qed
    also have "\<dots> \<le> of_int a / of_int b"
    proof -
      have "(of_int b :: rat) \<le> 2 ^ nat (bitlen b)"
        using high by (metis less_imp_le of_int_le_iff of_int_numeral of_int_power)
      with a b show ?thesis by (simp add: frac_le)
    qed
    finally have "(2::rat) powi (?k - 1) \<le> \<bar>x\<bar>" using x by simp
    with False show ?thesis by (simp add: binary_exponent_def q)
  qed
qed

lemma round_half_even_nearest: "\<bar>of_int (round_half_even x) - x\<bar> \<le> 1 / 2"
proof -
  define f where "f = \<lfloor>x\<rfloor>"
  define d where "d = x - of_int f"
  have d: "0 \<le> d" "d < 1" unfolding d_def f_def by linarith+
  have r: "round_half_even x = f \<or> round_half_even x = f + 1"
    by (simp add: round_half_even_def Let_def f_def)
  have "d < 1 / 2 \<Longrightarrow> round_half_even x = f"
    and "1 / 2 < d \<Longrightarrow> round_half_even x = f + 1"
    by (simp_all add: round_half_even_def Let_def f_def d_def)
  with r d show ?thesis
    unfolding d_def by (cases "d < 1 / 2"; cases "1 / 2 < d") (auto simp add: d_def)
qed

lemma binary_exponent_bound:
  assumes "x \<noteq> 0" and "\<bar>x\<bar> < 2 powi n"
  shows "binary_exponent x < n"
proof (rule ccontr)
  assume "\<not> binary_exponent x < n"
  then have "(2::rat) powi n \<le> 2 powi binary_exponent x"
    by (intro power_int_increasing) simp_all
  with binary_exponent_le [OF assms(1)] assms(2) show False by simp
qed

lemma binary_exponent_zero: "binary_exponent 0 < 1024"
  by code_simp

text \<open>A product between 0 and 100 is rounded to a double no further than \<open>2^-47\<close> away.\<close>

lemma round_double_near:
  assumes "0 \<le> y" and "y \<le> 100"
  shows "\<exists>x. round_double y = Finite x \<and> \<bar>x - y\<bar> \<le> 1 / 2 ^ 47"
proof (cases "y = 0")
  case True
  then show ?thesis by (simp add: round_double_def)
next
  case False
  define q where "q = max (binary_exponent y - 52) (- 1074)"
  define m where "m = round_half_even (y / 2 powi q)"
  define x where "x = of_int m * (2::rat) powi q"
  have "\<bar>y\<bar> < 2 powi 7" using assms by simp
  then have "binary_exponent y < 7" using False by (intro binary_exponent_bound)
  then have q: "q \<le> - 46" by (simp add: q_def)
  have pos: "0 < (2::rat) powi q" by simp
  have "\<bar>x - y\<bar> = 2 powi q * \<bar>of_int m - y / 2 powi q\<bar>"
  proof -
    have "x - y = 2 powi q * (of_int m - y / 2 powi q)"
      by (simp add: x_def algebra_simps)
    then show ?thesis using pos by (simp add: abs_mult)
  qed
  also have "\<dots> \<le> 2 powi q * (1 / 2)"
    using round_half_even_nearest [of "y / 2 powi q"] pos
    unfolding m_def by (intro mult_left_mono) simp_all
  also have "\<dots> \<le> 2 powi (- 46) * (1 / 2)"
    using q by (intro mult_right_mono power_int_increasing) simp_all
  also have "\<dots> = 1 / 2 ^ 47"
    by (simp add: power_int_minus power_one_over [symmetric] del: power_one_over)
  finally have near: "\<bar>x - y\<bar> \<le> 1 / 2 ^ 47" .
  have fin: "binary_exponent x < 1024"
  proof (cases "x = 0")
    case True
    then show ?thesis using binary_exponent_zero by simp
  next
    case False
    have "\<bar>x\<bar> \<le> y + 1 / 2 ^ 47" using near assms by linarith
    also have "\<dots> < 2 powi 1024" using assms by (simp add: power_int_def)
    finally show ?thesis using False by (intro binary_exponent_bound)
  qed
  have "round_double y = Finite x"
    using False fin by (simp add: round_double_def Let_def q_def m_def x_def)
  with near show ?thesis by blast
qed


subsection \<open>The progress line\<close>

lemma pushedLines_parts:
  "pushedLines s st =
     push_hotend s st (push_bed s st (push_status s st []))
       @ push_progress s st [] @ push_layer s st []"
  unfolding pushedLines_def
  by (subst push_layer_append, subst push_progress_append) simp

lemma push_progress_Nil_iff:
  "push_progress s st [] \<noteq> [] \<longleftrightarrow>
     displayPrintProgress s = Some True
     \<and> (\<exists>v p. virtual_sdcard st = Some v \<and> progress v = Some p)
     \<and> (\<exists>ps x. print_stats st = Some ps \<and> state ps = Some x
           \<and> (toLowerCase x = ''printing'' \<or> toLowerCase x = ''paused''))"
  by (auto simp add: push_progress_def sdcard_progress_def printing_or_paused_def
      currentPrintState_def truthy_bool_def split: option.splits)

lemma push_progress_line:
  assumes "virtual_sdcard st = Some v" and "progress v = Some p"
    and "push_progress s st [] \<noteq> []"
  shows "push_progress s st [] = [rounded_text (js_times (to_number p) 100) @ ''%'']"
  using assms by (auto simp add: push_progress_def sdcard_progress_def split: if_splits)

lemma js_times_100_near:
  assumes "0 \<le> p" and "p \<le> 1"
  shows "\<exists>x. js_times p 100 = Finite x \<and> \<bar>x - p * 100\<bar> \<le> 1 / 2 ^ 47
           \<and> rounded_text (js_times p 100) = int_text (Math_round x)
           \<and> \<bar>of_int (Math_round x) - x\<bar> \<le> 1 / 2
           \<and> 0 \<le> Math_round x \<and> Math_round x \<le> 100"
proof -
  have "0 \<le> p * 100" and "p * 100 \<le> 100" using assms by simp_all
  then obtain x where x: "round_double (p * 100) = Finite x" and near: "\<bar>x - p * 100\<bar> \<le> 1 / 2 ^ 47"
    using round_double_near by blast
  have small: "(1::rat) / 2 ^ 47 < 1 / 2" by simp
  have "- (1 / 2) < x" and "x < 100 + 1 / 2"
    using near small \<open>0 \<le> p * 100\<close> \<open>p * 100 \<le> 100\<close> by linarith+
  then have "0 \<le> Math_round x" and "Math_round x \<le> 100"
    unfolding Math_round_def by linarith+
  with x near show ?thesis
    using Math_round_nearest [of x] by (simp add: js_times_def rounded_text_def)
qed

text \<open>
  Claim C9, as amended. The lines pushed by the reducer are those of the state, bed and
  hot end steps, then the progress step's, then the layer step's. The progress step
  pushes a line if and only if the progress toggle is on, the snapshot has a progress
  field (a number, or \<^verbatim>\<open>null\<close>), and the lower-cased state is exactly \<open>printing\<close> or
  \<open>paused\<close>. The line is then \<^verbatim>\<open>Math.round\<close> of the double product of the field's number
  and 100, followed by the percent sign; this is stated for products of magnitude below
  \<open>2^52\<close>, which print in plain decimal. For a fraction from 0 to 1 the product is a
  finite double within \<open>2^-47\<close> of the exact product, and the integer shown is within
  one half of the double product and lies between 0 and 100. For \<^verbatim>\<open>null\<close> the line is
  \<open>0%\<close>.
\<close>

theorem progress_line:
  "pushedLines s st =
     push_hotend s st (push_bed s st (push_status s st []))
       @ push_progress s st [] @ push_layer s st []
   \<and> (push_progress s st [] \<noteq> [] \<longleftrightarrow>
        displayPrintProgress s = Some True
        \<and> (\<exists>v p. virtual_sdcard st = Some v \<and> progress v = Some p)
        \<and> (\<exists>ps x. print_stats st = Some ps \<and> state ps = Some x
              \<and> (toLowerCase x = ''printing'' \<or> toLowerCase x = ''paused'')))
   \<and> (\<forall>v p. virtual_sdcard st = Some v \<and> progress v = Some p
          \<and> push_progress s st [] \<noteq> [] \<and> \<bar>to_number p * 100\<bar> < 2 ^ 52 \<longrightarrow>
        push_progress s st [] = [rounded_text (js_times (to_number p) 100) @ ''%''])
   \<and> (\<forall>v p. virtual_sdcard st = Some v \<and> progress v = Some (Number p)
          \<and> push_progress s st [] \<noteq> [] \<and> 0 \<le> p \<and> p \<le> 1 \<longrightarrow>
        (\<exists>x. js_times p 100 = Finite x \<and> \<bar>x - p * 100\<bar> \<le> 1 / 2 ^ 47
           \<and> push_progress s st [] = [int_text (Math_round x) @ ''%'']
           \<and> \<bar>of_int (Math_round x) - x\<bar> \<le> 1 / 2
           \<and> 0 \<le> Math_round x \<and> Math_round x \<le> 100))
   \<and> (\<forall>v. virtual_sdcard st = Some v \<and> progress v = Some Null
          \<and> push_progress s st [] \<noteq> [] \<longrightarrow>
        push_progress s st [] = [''0%''])"
proof (intro conjI allI impI)
  show "pushedLines s st =
     push_hotend s st (push_bed s st (push_status s st []))
       @ push_progress s st [] @ push_layer s st []"
    by (rule pushedLines_parts)
next
  show "push_progress s st [] \<noteq> [] \<longleftrightarrow>
        displayPrintProgress s = Some True
        \<and> (\<exists>v p. virtual_sdcard st = Some v \<and> progress v = Some p)
        \<and> (\<exists>ps x. print_stats st = Some ps \<and> state ps = Some x
              \<and> (toLowerCase x = ''printing'' \<or> toLowerCase x = ''paused''))"
    by (rule push_progress_Nil_iff)
next
  fix v p
  assume "virtual_sdcard st = Some v \<and> progress v = Some p
          \<and> push_progress s st [] \<noteq> [] \<and> \<bar>to_number p * 100\<bar> < 2 ^ 52"
  then show "push_progress s st [] = [rounded_text (js_times (to_number p) 100) @ ''%'']"
    using push_progress_line [of st v p s] by blast
next
  fix v p
  assume a: "virtual_sdcard st = Some v \<and> progress v = Some (Number p)
          \<and> push_progress s st [] \<noteq> [] \<and> 0 \<le> p \<and> p \<le> 1"
  then have line: "push_progress s st [] = [rounded_text (js_times p 100) @ ''%'']"
    using push_progress_line [of st v "Number p" s] by simp
  from a obtain x where "js_times p 100 = Finite x" and "\<bar>x - p * 100\<bar> \<le> 1 / 2 ^ 47"
    and "rounded_text (js_times p 100) = int_text (Math_round x)"
    and "\<bar>of_int (Math_round x) - x\<bar> \<le> 1 / 2"
    and "0 \<le> Math_round x" and "Math_round x \<le> 100"
    using js_times_100_near [of p] by blast
  with line show "\<exists>x. js_times p 100 = Finite x \<and> \<bar>x - p * 100\<bar> \<le> 1 / 2 ^ 47
           \<and> push_progress s st [] = [int_text (Math_round x) @ ''%'']
           \<and> \<bar>of_int (Math_round x) - x\<bar> \<le> 1 / 2
           \<and> 0 \<le> Math_round x \<and> Math_round x \<le> 100"
    by auto
next
  fix v
  assume "virtual_sdcard st = Some v \<and> progress v = Some Null
          \<and> push_progress s st [] \<noteq> []"
  then have "push_progress s st [] = [rounded_text (js_times (to_number Null) 100) @ ''%'']"
    using push_progress_line [of st v Null s] by blast
  moreover have "rounded_text (js_times (to_number Null) 100) @ ''%'' = ''0%''"
    by code_simp
  ultimately show "push_progress s st [] = [''0%'']" by (simp only:)
qed

text \<open>
  Claim C9 as stated fails where the double product is rounded onto a half. For the
  double that \<open>0.155\<close> parses to, the exact product is below 15.5 and its nearest
  integer is 15, but the double product is 15.5 and the line is \<open>16%\<close>. Read on the
  decimal of the payload the claim fails as well: \<open>0.285\<close> times 100 is 28.5, which
  rounds to 29, and the line is \<open>28%\<close>.
\<close>

theorem double_product_counterexample:
  "round_double 0.155 = Finite double_0155
   \<and> push_progress local_settings (progress_snapshot ''printing'' double_0155) [] = [''16%'']
   \<and> spec_progress_line double_0155 = ''15%''
   \<and> \<bar>15 - double_0155 * 100\<bar> < 1 / 2
   \<and> \<not> \<bar>16 - double_0155 * 100\<bar> \<le> 1 / 2
   \<and> round_double 0.285 = Finite double_0285
   \<and> push_progress local_settings (progress_snapshot ''printing'' double_0285) [] = [''28%'']
   \<and> spec_progress_line 0.285 = ''29%''"
  by code_simp

theorem progress_line_witness:
  "0 \<le> double_0285 \<and> double_0285 \<le> 1 \<and> \<bar>double_0285 * 100\<bar> < 2 ^ 52
   \<and> push_progress local_settings (progress_snapshot ''Printing'' double_0285) [] = [''28%'']
   \<and> js_times double_0285 100 = Finite (8022036836253695 / 281474976710656)"
proof -
  let ?st = "progress_snapshot ''Printing'' double_0285"
  have range: "0 \<le> double_0285 \<and> double_0285 \<le> 1" by code_simp
  have on: "displayPrintProgress local_settings = Some True" by code_simp
  have sd: "virtual_sdcard ?st = Some \<lparr>progress = Some (Number double_0285)\<rparr>
            \<and> progress \<lparr>progress = Some (Number double_0285)\<rparr> = Some (Number double_0285)"
    by (simp add: progress_snapshot_def)
  have ps: "print_stats ?st = Some \<lparr>state = Some ''Printing'', filename = None, info = None\<rparr>
            \<and> state \<lparr>state = Some ''Printing'', filename = None, info = None\<rparr> = Some ''Printing''"
    by (simp add: progress_snapshot_def)
  have lc: "toLowerCase ''Printing'' = ''printing''" by code_simp
  have prod: "js_times double_0285 100 = Finite (8022036836253695 / 281474976710656)"
    by code_simp
  have shown: "int_text (Math_round (8022036836253695 / 281474976710656)) @ ''%'' = ''28%''"
    by code_simp
  have cond: "displayPrintProgress local_settings = Some True
        \<and> (\<exists>v p. virtual_sdcard ?st = Some v \<and> progress v = Some p)
        \<and> (\<exists>ps x. print_stats ?st = Some ps \<and> state ps = Some x
              \<and> (toLowerCase x = ''printing'' \<or> toLowerCase x = ''paused''))"
    using on sd ps lc by blast
  have ne: "push_progress local_settings ?st [] \<noteq> []"
    using progress_line [of local_settings ?st] cond by blast
  with progress_line [of local_settings ?st] sd range
  obtain x where x: "js_times double_0285 100 = Finite x"
    and line: "push_progress local_settings ?st [] = [int_text (Math_round x) @ ''%'']"
    by blast
  from x prod have "x = 8022036836253695 / 281474976710656"
    by (simp only: js_number.inject)
  with line shown have "push_progress local_settings ?st [] = [''28%'']"
    by (simp only:)
  moreover have "\<bar>double_0285 * 100\<bar> < 2 ^ 52" by code_simp
  ultimately show ?thesis using range prod by (intro conjI) (simp_all only:)
qed

text \<open>A \<^verbatim>\<open>null\<close> progress while printing shows as \<open>0%\<close>.\<close>

lemma null_progress_shown:
  "push_progress local_settings
     ((progress_snapshot ''printing'' 0) \<lparr>virtual_sdcard := Some \<lparr>progress = Some Null\<rparr>\<rparr>) []
     = [''0%'']"
  by code_simp

subsection \<open>Endpoint construction\<close>

lemma endsWith_slash: "endsWith u ''/'' \<longleftrightarrow> u \<noteq> [] \<and> last u = CHR ''/''"
proof (cases u rule: rev_cases)
  case Nil
  then show ?thesis by (simp add: endsWith_def)
next
  case (snoc ys y)
  then show ?thesis by (auto simp add: endsWith_def)
qed

lemma slice_0_minus1_butlast: "slice_0_minus1 u = butlast u"
  by (simp add: slice_0_minus1_def butlast_conv_take)

lemma build_url_port:
  "p \<noteq> [] \<Longrightarrow> build_url b (Some p) = spec_address b (Some p)"
  by (simp add: build_url_def spec_address_def spec_with_scheme_def spec_strip_slash_def
      endsWith_slash slice_0_minus1_butlast Let_def)

lemma build_url_no_port:
  "prt = None \<or> prt = Some [] \<Longrightarrow> build_url b prt = spec_address b None"
  by (auto simp add: build_url_def spec_address_def spec_with_scheme_def Let_def)

lemma spec_with_scheme_prefix:
  "startsWith (spec_with_scheme a) ''http://'' \<or> startsWith (spec_with_scheme a) ''https://''"
  by (simp add: spec_with_scheme_def startsWith_def)

lemma build_url_cases: "\<exists>q. build_url b prt = spec_address b q"
  using build_url_port [of _ b] build_url_no_port [of prt b]
  by (cases prt) (auto, metis)

text \<open>
  Claim C5, as amended. For valid settings with base address \<open>b\<close>: when the port is a
  non-empty string, exactly one trailing slash of \<open>b\<close>, if it has one, is stripped and
  \<open>:port\<close> is appended; when the port is absent or the empty string, \<open>b\<close> is kept as it
  is; in both cases \<open>http://\<close> is put in front unless the address starts with \<open>http://\<close>
  or \<open>https://\<close>, and the fixed query path follows. The URL and the headers are functions
  of the base address, the port and the access key alone.
\<close>

theorem request_url_rules:
  assumes "isValidSettings s" and "baseUrl s = Some b"
  shows "(port s = None \<or> port s = Some [] \<longrightarrow> request_url s = spec_address b None)
   \<and> (\<forall>p. port s = Some p \<and> p \<noteq> [] \<longrightarrow> request_url s = spec_address b (Some p))
   \<and> (\<forall>p c. port s = Some p \<and> p \<noteq> [] \<and> b = c @ ''/'' \<longrightarrow>
          request_url s = spec_with_scheme (c @ '':'' @ p))
   \<and> (\<forall>p. port s = Some p \<and> p \<noteq> [] \<and> \<not> endsWith b ''/'' \<longrightarrow>
          request_url s = spec_with_scheme (b @ '':'' @ p))
   \<and> (startsWith (request_url s) ''http://'' \<or> startsWith (request_url s) ''https://'')
   \<and> endpoint s = request_url s @ query_path
   \<and> (\<forall>s'. baseUrl s' = baseUrl s \<and> port s' = port s \<and> apiKey s' = apiKey s \<longrightarrow>
          endpoint s' = endpoint s \<and> request_headers s' = request_headers s)"
proof -
  have url: "request_url s = build_url b (port s)"
    using assms(2) by (simp add: request_url_def)
  have 1: "port s = None \<or> port s = Some [] \<longrightarrow> request_url s = spec_address b None"
    using build_url_no_port [of "port s" b] url by simp
  have 2: "\<forall>p. port s = Some p \<and> p \<noteq> [] \<longrightarrow> request_url s = spec_address b (Some p)"
    using build_url_port [of _ b] url by simp
  have 3: "\<forall>p c. port s = Some p \<and> p \<noteq> [] \<and> b = c @ ''/'' \<longrightarrow>
          request_url s = spec_with_scheme (c @ '':'' @ p)"
    using 2 by (auto simp add: spec_address_def spec_strip_slash_def)
  have 4: "\<forall>p. port s = Some p \<and> p \<noteq> [] \<and> \<not> endsWith b ''/'' \<longrightarrow>
          request_url s = spec_with_scheme (b @ '':'' @ p)"
    using 2 by (auto simp add: spec_address_def spec_strip_slash_def endsWith_slash)
  have 5: "startsWith (request_url s) ''http://'' \<or> startsWith (request_url s) ''https://''"
  proof -
    obtain q where "request_url s = spec_address b q"
      using build_url_cases [of b "port s"] url by auto
    then show ?thesis
      unfolding spec_address_def using spec_with_scheme_prefix by simp
  qed
  have 6: "endpoint s = request_url s @ query_path"
    by (simp add: endpoint_def)
  have 7: "\<forall>s'. baseUrl s' = baseUrl s \<and> port s' = port s \<and> apiKey s' = apiKey s \<longrightarrow>
          endpoint s' = endpoint s \<and> request_headers s' = request_headers s"
    by (simp add: endpoint_def request_url_def request_headers_def)
  from 1 2 3 4 5 6 7 show ?thesis by blast
qed

text \<open>
  Claim C5 as stated fails for a port that is supplied as the empty string: the source
  tests the port for truthiness, so the slash stays and no colon is appended.
\<close>

theorem blank_port_counterexample:
  "isValidSettings blank_port_settings
   \<and> baseUrl blank_port_settings = Some ''printer.local/''
   \<and> port blank_port_settings = Some []
   \<and> request_url blank_port_settings = ''http://printer.local/''
   \<and> spec_address ''printer.local/'' (port blank_port_settings) = ''http://printer.local:''
   \<and> request_url blank_port_settings \<noteq> spec_address ''printer.local/'' (port blank_port_settings)"
  by code_simp

theorem request_url_rules_witness:
  "isValidSettings local_settings
   \<and> request_url local_settings = ''http://mainsailos.local:7125''"
proof -
  have v: "isValidSettings local_settings" by code_simp
  have b: "baseUrl local_settings = Some ''mainsailos.local/''" by code_simp
  have p: "port local_settings = Some ''7125'' \<and> ''7125'' \<noteq> []" by code_simp
  have e: "spec_address ''mainsailos.local/'' (Some ''7125'') = ''http://mainsailos.local:7125''"
    by code_simp
  from request_url_rules [OF v b] p
  have "request_url local_settings = spec_address ''mainsailos.local/'' (Some ''7125'')"
    by simp
  with v e show ?thesis by simp
qed

subsection \<open>The fetch cycle\<close>

lemma fetch_invalid:
  "\<not> isValidSettings s \<Longrightarrow>
     fetchDataAndUpdateKey a s net w =
       (None, w\<lparr>trace := trace w @ [SetTitle a (''Settings'' @ nl @ ''Invalid''),
                                      Log (WarnFetchAborted a)]\<rparr>)"
  by (simp add: fetchDataAndUpdateKey_def emit_def)

lemma fetch_try_frame: "\<exists>es. snd (fetch_try a s net w) = w\<lparr>trace := trace w @ es\<rparr>"
  by (auto simp add: fetch_try_def emit_def updateKeyDisplay_def Let_def
      split: fetch_result.splits sum.splits envelope.splits)

lemma fetch_frame:
  "\<exists>es. fetchDataAndUpdateKey a s net w = (None, w\<lparr>trace := trace w @ es\<rparr>)"
proof (cases "isValidSettings s")
  case False
  then show ?thesis using fetch_invalid by blast
next
  case True
  obtain e w1 where r: "fetch_try a s net w = (e, w1)" by (cases "fetch_try a s net w")
  obtain es where "w1 = w\<lparr>trace := trace w @ es\<rparr>"
    using fetch_try_frame [of a s net w] r by auto
  with True r show ?thesis
    by (cases e) (auto simp add: fetchDataAndUpdateKey_def emit_def)
qed

text \<open>
  Claim C10. When the settings fail validation, the fetch cycle issues no request and
  changes neither the instance records nor the timers: its whole effect is to present
  \<open>Settings\<close>, \<open>Invalid\<close> on two lines and to log a warning. A key press on an instance
  whose stored settings are invalid does exactly this.
\<close>

theorem invalid_settings_fetch_cycle:
  "\<not> isValidSettings s \<Longrightarrow>
     fetchDataAndUpdateKey a s net w =
       (None, w\<lparr>trace := trace w @ [SetTitle a (''Settings'' @ nl @ ''Invalid''),
                                      Log (WarnFetchAborted a)]\<rparr>)
     \<and> fetch_count (trace (snd (fetchDataAndUpdateKey a s net w))) = fetch_count (trace w)
     \<and> timers (snd (fetchDataAndUpdateKey a s net w)) = timers w
     \<and> fresh (snd (fetchDataAndUpdateKey a s net w)) = fresh w
     \<and> actionStates (snd (fetchDataAndUpdateKey a s net w)) = actionStates w
     \<and> (\<forall>st. actionStates w a = Some st \<and> settings st = s \<longrightarrow>
           onKeyDown a net w = fetchDataAndUpdateKey a s net w)"
  by (simp add: fetch_invalid fetch_count_def onKeyDown_def)

theorem invalid_settings_fetch_cycle_witness:
  "\<not> isValidSettings emptySettings
   \<and> trace (snd (fetchDataAndUpdateKey ''key'' emptySettings ok_response init))
       = [SetTitle ''key'' (''Settings'' @ nl @ ''Invalid''), Log (WarnFetchAborted ''key'')]"
proof -
  have v: "\<not> isValidSettings emptySettings" by code_simp
  have i: "trace init = []" by (simp add: init_def)
  from invalid_settings_fetch_cycle [OF v, of "''key''" ok_response init] v i
  show ?thesis by simp
qed

lemma fetch_http_error:
  assumes "isValidSettings s" and "\<not> response_ok r"
  shows "fetchDataAndUpdateKey a s (Responded r) w =
     (None, w\<lparr>trace := trace w
        @ [Fetch (endpoint s) (request_headers s),
           SetTitle a (''Error:'' @ nl @ nat_text (status_code r))]
        @ (case text_result r of
             Inr body \<Rightarrow> [Log (ErrorApi a (status_code r) (statusText r) body)]
           | Inl e \<Rightarrow> [SetTitle a (''Fetch'' @ nl @ ''Error''),
                        Log (ErrorException a (error_message e))])\<rparr>)"
  using assms
  by (simp add: fetchDataAndUpdateKey_def fetch_try_def emit_def Let_def split: sum.splits)

text \<open>
  Claim C7. For valid settings and a response whose status is outside 200 to 299, the
  fetch cycle returns normally; it requests the endpoint and presents \<open>Error:\<close> and the
  decimal status code on two lines; the response body goes to the error log and nowhere
  else. Should reading the body fail, that failure is caught as well and presented as
  \<open>Fetch\<close>, \<open>Error\<close>.
\<close>

theorem http_error_presentation:
  assumes "isValidSettings s" and "status_code r < 200 \<or> 299 < status_code r"
  shows "fetchDataAndUpdateKey a s (Responded r) w =
     (None, w\<lparr>trace := trace w
        @ [Fetch (endpoint s) (request_headers s),
           SetTitle a (''Error:'' @ nl @ nat_text (status_code r))]
        @ (case text_result r of
             Inr body \<Rightarrow> [Log (ErrorApi a (status_code r) (statusText r) body)]
           | Inl e \<Rightarrow> [SetTitle a (''Fetch'' @ nl @ ''Error''),
                        Log (ErrorException a (error_message e))])\<rparr>)"
proof -
  have "\<not> response_ok r"
    using assms(2) by (auto simp add: response_ok_def)
  with assms(1) show ?thesis by (rule fetch_http_error)
qed

theorem http_error_presentation_witness:
  "isValidSettings local_settings
   \<and> trace (snd (fetchDataAndUpdateKey ''key'' local_settings (Responded unauthorized) init))
       = [Fetch (''http://mainsailos.local:7125'' @ query_path)
            [(''Content-Type'', ''application/json'')],
          SetTitle ''key'' (''Error:'' @ nl @ ''401''),
          Log (ErrorApi ''key'' 401 ''Unauthorized'' ''access denied'')]"
proof -
  have v: "isValidSettings local_settings" by code_simp
  have c: "status_code unauthorized < 200 \<or> 299 < status_code unauthorized" by code_simp
  have i: "trace init = []" by (simp add: init_def)
  have e: "endpoint local_settings = ''http://mainsailos.local:7125'' @ query_path" by code_simp
  have h: "request_headers local_settings = [(''Content-Type'', ''application/json'')]"
    by code_simp
  have n: "nat_text (status_code unauthorized) = ''401''" by code_simp
  have u: "status_code unauthorized = 401" "statusText unauthorized = ''Unauthorized''"
    "text_result unauthorized = Inr ''access denied''"
    by (simp_all add: unauthorized_def)
  from http_error_presentation [OF v c, of "''key''" init] v i e h n u
  show ?thesis by simp
qed






subsection \<open>The instance scheduler\<close>

lemma count_append [simp]:
  "fetch_count (xs @ ys) = fetch_count xs + fetch_count ys"
  "present_count (xs @ ys) = present_count xs + present_count ys"
  "schedule_count (xs @ ys) = schedule_count xs + schedule_count ys"
  by (simp_all add: fetch_count_def present_count_def schedule_count_def)

lemma count_Nil [simp]:
  "fetch_count [] = 0" "present_count [] = 0" "schedule_count [] = 0"
  by (simp_all add: fetch_count_def present_count_def schedule_count_def)

lemma count_Cons [simp]:
  "fetch_count (e # es) = (if is_fetch e then 1 else 0) + fetch_count es"
  "present_count (e # es) = (if is_present e then 1 else 0) + present_count es"
  "schedule_count (e # es) = (if is_schedule e then 1 else 0) + schedule_count es"
  by (simp_all add: fetch_count_def present_count_def schedule_count_def)

lemma stop_fresh [simp]: "fresh (stopPollingForAction a w) = fresh w"
  by (simp add: stopPollingForAction_def split: option.splits)

lemma stop_timers: "timers (stopPollingForAction a w) t = Some x \<Longrightarrow> timers w t = Some x"
  by (auto simp add: stopPollingForAction_def split: option.splits if_splits)

lemma stop_states_self:
  "actionStates (stopPollingForAction a w) a
     = map_option (\<lambda>st. st\<lparr>timerId := None\<rparr>) (actionStates w a)"
  by (auto simp add: stopPollingForAction_def split: option.splits)

lemma stop_states_other:
  "b \<noteq> a \<Longrightarrow> actionStates (stopPollingForAction a w) b = actionStates w b"
  by (simp add: stopPollingForAction_def split: option.splits)

lemma stop_counts [simp]:
  "fetch_count (trace (stopPollingForAction a w)) = fetch_count (trace w)"
  "present_count (trace (stopPollingForAction a w)) = present_count (trace w)"
  "schedule_count (trace (stopPollingForAction a w)) = schedule_count (trace w)"
  by (simp_all add: stopPollingForAction_def split: option.splits)

lemma apply_invalid:
  "\<not> isValidSettings s \<Longrightarrow>
     applySettingsAndStartPolling a s net w =
       (None, emit (SetTitle a (''Settings'' @ nl @ ''Required''))
                (emit (Log (WarnSettingsInvalid a)) (stopPollingForAction a w)))"
  by (simp add: applySettingsAndStartPolling_def Let_def)

lemma isValidSettings_iff:
  "isValidSettings s \<longleftrightarrow>
     (\<exists>b. baseUrl s = Some b \<and> b \<noteq> []) \<and> (\<exists>x. pollingInterval s = Some x \<and> 0 < x)"
  by (auto simp add: isValidSettings_def truthy_str_def truthy_num_def split: option.splits)

lemma apply_invalid_outcome:
  assumes "\<not> isValidSettings s" and "actionStates w a = Some st" and "settings st = s"
    and "r = applySettingsAndStartPolling a s net w"
  shows "fst r = None
     \<and> schedule_count (trace (snd r)) = schedule_count (trace w)
     \<and> fetch_count (trace (snd r)) = fetch_count (trace w)
     \<and> fresh (snd r) = fresh w
     \<and> (\<forall>t x. timers (snd r) t = Some x \<longrightarrow> timers w t = Some x)
     \<and> (\<exists>st'. actionStates (snd r) a = Some st' \<and> settings st' = s \<and> timerId st' = None)
     \<and> last (trace (snd r)) = SetTitle a (''Settings'' @ nl @ ''Required'')"
  using assms stop_timers [of a w] stop_states_self [of a w]
  by (auto simp add: apply_invalid emit_def)

lemma invalid_emptySettings: "\<not> isValidSettings emptySettings"
  by (simp add: isValidSettings_def emptySettings_def truthy_str_def)

text \<open>
  Claim C4. The settings are valid if and only if the base address is a non-empty string
  and the polling interval is a number greater than zero. When they are not, both
  \<open>onWillAppear\<close> and \<open>onDidReceiveSettings\<close> return normally, set no interval and issue
  no request, leave no timer active that was not active before, store the settings with
  no timer, and present \<open>Settings\<close>, \<open>Required\<close> on two lines as their last call.
\<close>

theorem invalid_settings_no_timer:
  "(isValidSettings s \<longleftrightarrow>
      (\<exists>b. baseUrl s = Some b \<and> b \<noteq> []) \<and> (\<exists>x. pollingInterval s = Some x \<and> 0 < x))
   \<and> (\<not> isValidSettings s \<longrightarrow>
        (\<forall>r. r = onWillAppear a (Some s) net w \<or> r = onDidReceiveSettings a s net w \<longrightarrow>
           fst r = None
           \<and> schedule_count (trace (snd r)) = schedule_count (trace w)
           \<and> fetch_count (trace (snd r)) = fetch_count (trace w)
           \<and> fresh (snd r) = fresh w
           \<and> (\<forall>t x. timers (snd r) t = Some x \<longrightarrow> timers w t = Some x)
           \<and> (\<exists>st. actionStates (snd r) a = Some st \<and> settings st = s \<and> timerId st = None)
           \<and> last (trace (snd r)) = SetTitle a (''Settings'' @ nl @ ''Required'')))"
proof -
  have outcome: "fst r = None
           \<and> schedule_count (trace (snd r)) = schedule_count (trace w)
           \<and> fetch_count (trace (snd r)) = fetch_count (trace w)
           \<and> fresh (snd r) = fresh w
           \<and> (\<forall>t x. timers (snd r) t = Some x \<longrightarrow> timers w t = Some x)
           \<and> (\<exists>st. actionStates (snd r) a = Some st \<and> settings st = s \<and> timerId st = None)
           \<and> last (trace (snd r)) = SetTitle a (''Settings'' @ nl @ ''Required'')"
    if inv: "\<not> isValidSettings s"
      and r: "r = onWillAppear a (Some s) net w \<or> r = onDidReceiveSettings a s net w"
    for r
    using r
  proof
    assume r1: "r = onWillAppear a (Some s) net w"
    let ?w1 = "w\<lparr>actionStates := (actionStates w)(a \<mapsto> \<lparr>settings = s, timerId = None\<rparr>)\<rparr>"
    have "r = applySettingsAndStartPolling a s net ?w1"
      using r1 by (simp add: onWillAppear_def Let_def)
    from apply_invalid_outcome [OF inv _ _ this, of "\<lparr>settings = s, timerId = None\<rparr>"]
    show ?thesis by simp
  next
    assume r2: "r = onDidReceiveSettings a s net w"
    show ?thesis
    proof (cases "actionStates w a")
      case None
      let ?w1 = "(emit (Log (WarnNoPriorState a)) w)
                   \<lparr>actionStates := (actionStates w)(a \<mapsto> \<lparr>settings = s, timerId = None\<rparr>)\<rparr>"
      have "r = applySettingsAndStartPolling a s net ?w1"
        using r2 None by (simp add: onDidReceiveSettings_def store_settings_def Let_def)
      from apply_invalid_outcome [OF inv _ _ this, of "\<lparr>settings = s, timerId = None\<rparr>"]
      show ?thesis by (simp add: emit_def)
    next
      case (Some st)
      let ?w1 = "w\<lparr>actionStates := (actionStates w)(a \<mapsto> st\<lparr>settings := s\<rparr>)\<rparr>"
      have "r = applySettingsAndStartPolling a s net ?w1"
        using r2 Some by (simp add: onDidReceiveSettings_def store_settings_def Let_def)
      from apply_invalid_outcome [OF inv _ _ this, of "st\<lparr>settings := s\<rparr>"]
      show ?thesis by simp
    qed
  qed
  show ?thesis
  proof (rule conjI)
    show "isValidSettings s \<longleftrightarrow>
      (\<exists>b. baseUrl s = Some b \<and> b \<noteq> []) \<and> (\<exists>x. pollingInterval s = Some x \<and> 0 < x)"
      by (rule isValidSettings_iff)
  next
    show "\<not> isValidSettings s \<longrightarrow>
        (\<forall>r. r = onWillAppear a (Some s) net w \<or> r = onDidReceiveSettings a s net w \<longrightarrow>
           fst r = None
           \<and> schedule_count (trace (snd r)) = schedule_count (trace w)
           \<and> fetch_count (trace (snd r)) = fetch_count (trace w)
           \<and> fresh (snd r) = fresh w
           \<and> (\<forall>t x. timers (snd r) t = Some x \<longrightarrow> timers w t = Some x)
           \<and> (\<exists>st. actionStates (snd r) a = Some st \<and> settings st = s \<and> timerId st = None)
           \<and> last (trace (snd r)) = SetTitle a (''Settings'' @ nl @ ''Required''))"
    proof (rule impI, rule allI, rule impI)
      fix r
      assume "\<not> isValidSettings s"
        and "r = onWillAppear a (Some s) net w \<or> r = onDidReceiveSettings a s net w"
      then show "fst r = None
           \<and> schedule_count (trace (snd r)) = schedule_count (trace w)
           \<and> fetch_count (trace (snd r)) = fetch_count (trace w)
           \<and> fresh (snd r) = fresh w
           \<and> (\<forall>t x. timers (snd r) t = Some x \<longrightarrow> timers w t = Some x)
           \<and> (\<exists>st. actionStates (snd r) a = Some st \<and> settings st = s \<and> timerId st = None)
           \<and> last (trace (snd r)) = SetTitle a (''Settings'' @ nl @ ''Required'')"
        by (rule outcome)
    qed
  qed
qed

theorem invalid_settings_no_timer_witness:
  "\<not> isValidSettings emptySettings
   \<and> fst (onWillAppear ''key'' (Some emptySettings) ok_response init) = None
   \<and> schedule_count (trace (snd (onWillAppear ''key'' (Some emptySettings) ok_response init))) = 0
   \<and> last (trace (snd (onWillAppear ''key'' (Some emptySettings) ok_response init)))
       = SetTitle ''key'' (''Settings'' @ nl @ ''Required'')"
proof -
  have i: "schedule_count (trace init) = 0"
    by (simp add: init_def)
  note rule = invalid_settings_no_timer [of emptySettings "''key''" ok_response init,
      THEN conjunct2, THEN mp, OF invalid_emptySettings, THEN spec,
      of "onWillAppear ''key'' (Some emptySettings) ok_response init", THEN mp]
  have "onWillAppear ''key'' (Some emptySettings) ok_response init
          = onWillAppear ''key'' (Some emptySettings) ok_response init
        \<or> onWillAppear ''key'' (Some emptySettings) ok_response init
          = onDidReceiveSettings ''key'' emptySettings ok_response init"
    by simp
  from rule [OF this] i invalid_emptySettings show ?thesis by simp
qed

subsection \<open>Superseded timers\<close>

lemma fetch_keeps [simp]:
  "fst (fetchDataAndUpdateKey a s net w) = None"
  "fresh (snd (fetchDataAndUpdateKey a s net w)) = fresh w"
  "timers (snd (fetchDataAndUpdateKey a s net w)) = timers w"
  "actionStates (snd (fetchDataAndUpdateKey a s net w)) = actionStates w"
proof -
  obtain es where "fetchDataAndUpdateKey a s net w = (None, w\<lparr>trace := trace w @ es\<rparr>)"
    using fetch_frame by blast
  then show "fst (fetchDataAndUpdateKey a s net w) = None"
    and "fresh (snd (fetchDataAndUpdateKey a s net w)) = fresh w"
    and "timers (snd (fetchDataAndUpdateKey a s net w)) = timers w"
    and "actionStates (snd (fetchDataAndUpdateKey a s net w)) = actionStates w"
    by simp_all
qed

lemma fetch_try_one_request:
  "fetch_count (trace (snd (fetch_try a s net w))) = fetch_count (trace w) + 1"
  by (simp add: fetch_try_def emit_def updateKeyDisplay_def Let_def
      split: fetch_result.splits sum.splits envelope.splits)

lemma fetch_valid_one_request:
  assumes "isValidSettings s"
  shows "fetch_count (trace (snd (fetchDataAndUpdateKey a s net w))) = fetch_count (trace w) + 1"
proof -
  obtain e w1 where r: "fetch_try a s net w = (e, w1)" by (cases "fetch_try a s net w")
  then have "fetch_count (trace w1) = fetch_count (trace w) + 1"
    using fetch_try_one_request [of a s net w] by simp
  with assms r show ?thesis
    by (cases e) (simp_all add: fetchDataAndUpdateKey_def emit_def)
qed

lemma callback_stale:
  assumes "actionStates w a = None \<or> (\<exists>st. actionStates w a = Some st \<and> timerId st \<noteq> Some t)"
  shows "\<exists>l. timer_callback a t net w = (None, w\<lparr>trace := trace w @ [Log l]\<rparr>)"
  using assms by (auto simp add: timer_callback_def emit_def)

lemma callback_stale_counts:
  assumes "actionStates w a = None \<or> (\<exists>st. actionStates w a = Some st \<and> timerId st \<noteq> Some t)"
  shows "fetch_count (trace (snd (timer_callback a t net w))) = fetch_count (trace w)"
    and "present_count (trace (snd (timer_callback a t net w))) = present_count (trace w)"
    and "schedule_count (trace (snd (timer_callback a t net w))) = schedule_count (trace w)"
proof -
  obtain l where "timer_callback a t net w = (None, w\<lparr>trace := trace w @ [Log l]\<rparr>)"
    using callback_stale [OF assms] by blast
  then show "fetch_count (trace (snd (timer_callback a t net w))) = fetch_count (trace w)"
    and "present_count (trace (snd (timer_callback a t net w))) = present_count (trace w)"
    and "schedule_count (trace (snd (timer_callback a t net w))) = schedule_count (trace w)"
    by simp_all
qed

lemma callback_fresh [simp]: "fresh (snd (timer_callback a t net w)) = fresh w"
  by (simp add: timer_callback_def emit_def split: option.splits)

lemma apply_stored:
  assumes "actionStates w a = Some st0"
  shows "\<exists>st. actionStates (snd (applySettingsAndStartPolling a s net w)) a = Some st
           \<and> settings st = settings st0
           \<and> timerId st = (if isValidSettings s then Some (fresh w) else None)"
    and "fresh (snd (applySettingsAndStartPolling a s net w))
           = (if isValidSettings s then Suc (fresh w) else fresh w)"
proof -
  let ?w1 = "stopPollingForAction a w"
  have st1: "actionStates ?w1 a = Some (st0\<lparr>timerId := None\<rparr>)"
    using assms by (simp add: stop_states_self)
  obtain es where f: "fetchDataAndUpdateKey a s net ?w1 = (None, ?w1\<lparr>trace := trace ?w1 @ es\<rparr>)"
    using fetch_frame by blast
  show "\<exists>st. actionStates (snd (applySettingsAndStartPolling a s net w)) a = Some st
           \<and> settings st = settings st0
           \<and> timerId st = (if isValidSettings s then Some (fresh w) else None)"
    using st1 f by (simp add: applySettingsAndStartPolling_def start_polling_def setInterval_def emit_def Let_def)
  show "fresh (snd (applySettingsAndStartPolling a s net w))
           = (if isValidSettings s then Suc (fresh w) else fresh w)"
    using st1 f by (simp add: applySettingsAndStartPolling_def start_polling_def setInterval_def emit_def Let_def)
qed

lemma didReceive_as_apply:
  "\<exists>w1 st0. onDidReceiveSettings a s net w = applySettingsAndStartPolling a s net w1
      \<and> fresh w1 = fresh w \<and> timers w1 = timers w
      \<and> actionStates w1 a = Some st0 \<and> settings st0 = s
      \<and> (\<forall>b. b \<noteq> a \<longrightarrow> actionStates w1 b = actionStates w b)
      \<and> (\<forall>st. actionStates w a = Some st \<longrightarrow> timerId st0 = timerId st)
      \<and> (actionStates w a = None \<longrightarrow> timerId st0 = None)"
  by (cases "actionStates w a") (auto simp add: onDidReceiveSettings_def store_settings_def emit_def Let_def)

lemma didReceive_stored:
  "\<exists>st. actionStates (snd (onDidReceiveSettings a s net w)) a = Some st
         \<and> settings st = s
         \<and> timerId st = (if isValidSettings s then Some (fresh w) else None)"
  "fresh (snd (onDidReceiveSettings a s net w))
         = (if isValidSettings s then Suc (fresh w) else fresh w)"
proof -
  obtain w1 st0 where eq: "onDidReceiveSettings a s net w = applySettingsAndStartPolling a s net w1"
    and fr: "fresh w1 = fresh w" and st: "actionStates w1 a = Some st0" and s0: "settings st0 = s"
    using didReceive_as_apply [of a s net w] by blast
  show "\<exists>st. actionStates (snd (onDidReceiveSettings a s net w)) a = Some st
         \<and> settings st = s
         \<and> timerId st = (if isValidSettings s then Some (fresh w) else None)"
    using apply_stored(1) [OF st, of s net] by (auto simp add: eq fr s0 split: if_splits)
  show "fresh (snd (onDidReceiveSettings a s net w))
         = (if isValidSettings s then Suc (fresh w) else fresh w)"
    using apply_stored(2) [OF st, of s net] by (auto simp add: eq fr split: if_splits)
qed

lemma old_timer_after_change:
  assumes "t < fresh w"
  shows "fetch_count (trace (snd (timer_callback a t n (snd (onDidReceiveSettings a s net w)))))
           = fetch_count (trace (snd (onDidReceiveSettings a s net w)))"
proof -
  let ?w1 = "snd (onDidReceiveSettings a s net w)"
  obtain st where "actionStates ?w1 a = Some st"
    and "timerId st = (if isValidSettings s then Some (fresh w) else None)"
    using didReceive_stored(1) [of a s net w] by blast
  with assms have "\<exists>st. actionStates ?w1 a = Some st \<and> timerId st \<noteq> Some t"
    by auto
  then show ?thesis
    using callback_stale_counts(1) [of ?w1 a t n] by simp
qed

text \<open>
  Claim C1. When the callback of timer \<open>t\<close> of instance \<open>a\<close> fires and the instance has no
  record, or its record holds another timer or none, the callback only logs a warning:
  nothing else of the world changes, so there is no request, no presentation and no new
  interval. Hence a timer that was set before a settings change fetches nothing when it
  fires after the change, and nothing after a second change; and the timer that a first
  change with valid settings sets, which fetches once while it is the stored one,
  fetches nothing when it fires after the second change.
\<close>

theorem stale_timer_guard:
  "((actionStates w a = None \<or> (\<exists>st. actionStates w a = Some st \<and> timerId st \<noteq> Some t)) \<longrightarrow>
      (\<exists>l. timer_callback a t net w = (None, w\<lparr>trace := trace w @ [Log l]\<rparr>))
      \<and> fetch_count (trace (snd (timer_callback a t net w))) = fetch_count (trace w)
      \<and> present_count (trace (snd (timer_callback a t net w))) = present_count (trace w)
      \<and> schedule_count (trace (snd (timer_callback a t net w))) = schedule_count (trace w))
   \<and> (t < fresh w \<longrightarrow>
       (let w1 = snd (onDidReceiveSettings a s1 n1 w);
            w2 = snd (timer_callback a t n2 w1);
            w3 = snd (onDidReceiveSettings a s2 n3 w2);
            w4 = snd (timer_callback a t n4 w3)
        in fetch_count (trace w2) = fetch_count (trace w1)
           \<and> fetch_count (trace w4) = fetch_count (trace w3)))
   \<and> (isValidSettings s1 \<longrightarrow>
       (let w1 = snd (onDidReceiveSettings a s1 n1 w);
            w2 = snd (timer_callback a (fresh w) n2 w1);
            w3 = snd (onDidReceiveSettings a s2 n3 w2);
            w4 = snd (timer_callback a (fresh w) n4 w3)
        in (\<exists>st. actionStates w1 a = Some st \<and> timerId st = Some (fresh w))
           \<and> fetch_count (trace w2) = fetch_count (trace w1) + 1
           \<and> fetch_count (trace w4) = fetch_count (trace w3)))"
proof (intro conjI)
  show "(actionStates w a = None \<or> (\<exists>st. actionStates w a = Some st \<and> timerId st \<noteq> Some t)) \<longrightarrow>
      (\<exists>l. timer_callback a t net w = (None, w\<lparr>trace := trace w @ [Log l]\<rparr>))
      \<and> fetch_count (trace (snd (timer_callback a t net w))) = fetch_count (trace w)
      \<and> present_count (trace (snd (timer_callback a t net w))) = present_count (trace w)
      \<and> schedule_count (trace (snd (timer_callback a t net w))) = schedule_count (trace w)"
    using callback_stale [of w a t net] callback_stale_counts [of w a t net] by blast
next
  show "t < fresh w \<longrightarrow>
       (let w1 = snd (onDidReceiveSettings a s1 n1 w);
            w2 = snd (timer_callback a t n2 w1);
            w3 = snd (onDidReceiveSettings a s2 n3 w2);
            w4 = snd (timer_callback a t n4 w3)
        in fetch_count (trace w2) = fetch_count (trace w1)
           \<and> fetch_count (trace w4) = fetch_count (trace w3))"
  proof
    assume old: "t < fresh w"
    let ?w1 = "snd (onDidReceiveSettings a s1 n1 w)"
    let ?w2 = "snd (timer_callback a t n2 ?w1)"
    have "t < fresh ?w2"
      using old didReceive_stored(2) [of a s1 n1 w] by simp
    then show "let w1 = snd (onDidReceiveSettings a s1 n1 w);
            w2 = snd (timer_callback a t n2 w1);
            w3 = snd (onDidReceiveSettings a s2 n3 w2);
            w4 = snd (timer_callback a t n4 w3)
        in fetch_count (trace w2) = fetch_count (trace w1)
           \<and> fetch_count (trace w4) = fetch_count (trace w3)"
      unfolding Let_def
      using old_timer_after_change [OF old, of a n2 s1 n1]
        old_timer_after_change [of t ?w2 a n4 s2 n3] by blast
  qed
next
  show "isValidSettings s1 \<longrightarrow>
       (let w1 = snd (onDidReceiveSettings a s1 n1 w);
            w2 = snd (timer_callback a (fresh w) n2 w1);
            w3 = snd (onDidReceiveSettings a s2 n3 w2);
            w4 = snd (timer_callback a (fresh w) n4 w3)
        in (\<exists>st. actionStates w1 a = Some st \<and> timerId st = Some (fresh w))
           \<and> fetch_count (trace w2) = fetch_count (trace w1) + 1
           \<and> fetch_count (trace w4) = fetch_count (trace w3))"
  proof
    assume valid: "isValidSettings s1"
    let ?w1 = "snd (onDidReceiveSettings a s1 n1 w)"
    let ?w2 = "snd (timer_callback a (fresh w) n2 ?w1)"
    obtain st where st: "actionStates ?w1 a = Some st" "timerId st = Some (fresh w)"
      and kept: "settings st = s1"
      using didReceive_stored(1) [of a s1 n1 w] valid by auto
    have tick: "fetch_count (trace ?w2) = fetch_count (trace ?w1) + 1"
      using st kept valid fetch_valid_one_request [of s1 a n2 ?w1]
      by (simp add: timer_callback_def)
    have "fresh w < fresh ?w2"
      using valid didReceive_stored(2) [of a s1 n1 w] by simp
    then have "fetch_count (trace (snd (timer_callback a (fresh w) n4 (snd (onDidReceiveSettings a s2 n3 ?w2)))))
                 = fetch_count (trace (snd (onDidReceiveSettings a s2 n3 ?w2)))"
      by (rule old_timer_after_change)
    with st tick show "let w1 = snd (onDidReceiveSettings a s1 n1 w);
            w2 = snd (timer_callback a (fresh w) n2 w1);
            w3 = snd (onDidReceiveSettings a s2 n3 w2);
            w4 = snd (timer_callback a (fresh w) n4 w3)
        in (\<exists>st. actionStates w1 a = Some st \<and> timerId st = Some (fresh w))
           \<and> fetch_count (trace w2) = fetch_count (trace w1) + 1
           \<and> fetch_count (trace w4) = fetch_count (trace w3)"
      unfolding Let_def by blast
  qed
qed

theorem stale_timer_guard_witness:
  "actionStates init ''key'' = None
   \<and> fetch_count (trace (snd (timer_callback ''key'' 0 ok_response init))) = 0
   \<and> 0 < fresh polling_world
   \<and> (let w1 = snd (onDidReceiveSettings ''key'' local_settings ok_response polling_world);
          w2 = snd (timer_callback ''key'' 0 refused w1);
          w3 = snd (onDidReceiveSettings ''key'' emptySettings garbled w2);
          w4 = snd (timer_callback ''key'' 0 ok_response w3)
      in fetch_count (trace w2) = fetch_count (trace w1)
         \<and> fetch_count (trace w4) = fetch_count (trace w3))
   \<and> isValidSettings local_settings
   \<and> (let w1 = snd (onDidReceiveSettings ''key'' local_settings ok_response polling_world);
          w2 = snd (timer_callback ''key'' (fresh polling_world) refused w1);
          w3 = snd (onDidReceiveSettings ''key'' emptySettings garbled w2);
          w4 = snd (timer_callback ''key'' (fresh polling_world) ok_response w3)
      in (\<exists>st. actionStates w1 ''key'' = Some st \<and> timerId st = Some (fresh polling_world))
         \<and> fetch_count (trace w2) = fetch_count (trace w1) + 1
         \<and> fetch_count (trace w4) = fetch_count (trace w3))"
proof -
  have h1: "actionStates init ''key'' = None" by (simp add: init_def)
  have h2: "0 < fresh polling_world" by code_simp
  have h3: "isValidSettings local_settings" by code_simp
  have i: "fetch_count (trace init) = 0" by (simp add: init_def)
  note g = stale_timer_guard [where a = "''key''" and net = ok_response and ?s1.0 = local_settings
      and ?n1.0 = ok_response and ?n2.0 = refused and ?s2.0 = emptySettings
      and ?n3.0 = garbled and ?n4.0 = ok_response]
  note g1 = g [where w = init and t = 0, THEN conjunct1, THEN mp, OF disjI1, OF h1,
      THEN conjunct2, THEN conjunct1]
  note g2 = g [where w = polling_world and t = 0, THEN conjunct2, THEN conjunct1, THEN mp, OF h2]
  note g3 = g [where w = polling_world and t = 0, THEN conjunct2, THEN conjunct2, THEN mp, OF h3]
  from g1 i have "fetch_count (trace (snd (timer_callback ''key'' 0 ok_response init))) = 0"
    by simp
  with h1 h2 h3 g2 g3 show ?thesis by (intro conjI)
qed

subsection \<open>One timer for each instance\<close>

lemma onDidReceiveSettings_parts:
  "isValidSettings s \<Longrightarrow>
     onDidReceiveSettings a s net w
       = start_polling a s net (stopPollingForAction a (store_settings a s w))"
  by (simp add: onDidReceiveSettings_def applySettingsAndStartPolling_def Let_def)

text \<open>
  Claim C6 does not hold of the source. When a key that is polling appears again,
  \<open>onWillAppear\<close> replaces its record before the old timer is stopped: the old interval is
  never cleared, and two intervals of the instance stay active, of which the record
  holds the second. The same happens when a settings change overtakes another one that
  awaits its first fetch cycle: both handlers find no timer to stop by the time they set
  theirs, and the interval of the first is never cleared.
\<close>

theorem old_timer_left_active:
  "timers polling_world 0 = Some ''key''
   \<and> map_option timerId (actionStates polling_world ''key'') = Some (Some 0)
   \<and> timers (snd (onWillAppear ''key'' (Some local_settings) ok_response polling_world)) 0
       = Some ''key''
   \<and> timers (snd (onWillAppear ''key'' (Some local_settings) ok_response polling_world)) 1
       = Some ''key''
   \<and> map_option timerId
        (actionStates (snd (onWillAppear ''key'' (Some local_settings) ok_response polling_world))
           ''key'') = Some (Some 1)
   \<and> filter (\<lambda>e. is_schedule e \<or> e = ClearInterval 0)
        (trace (snd (onWillAppear ''key'' (Some local_settings) ok_response polling_world)))
       = [SetInterval 0 ''key'' (Finite 5000), SetInterval 1 ''key'' (Finite 5000)]
   \<and> timers overlapped_changes 1 = Some ''key''
   \<and> timers overlapped_changes 2 = Some ''key''
   \<and> map_option timerId (actionStates overlapped_changes ''key'') = Some (Some 2)
   \<and> filter (\<lambda>e. is_schedule e \<or> e = ClearInterval 0 \<or> e = ClearInterval 1)
        (trace overlapped_changes)
       = [SetInterval 0 ''key'' (Finite 5000), ClearInterval 0,
          SetInterval 1 ''key'' (Finite 5000), SetInterval 2 ''key'' (Finite 10000)]"
  by code_simp

subsection \<open>Where the scheduler keeps one timer for each instance\<close>

lemma scheduler_invI:
  assumes "\<And>t b. timers w t = Some b \<Longrightarrow> \<exists>st. actionStates w b = Some st \<and> timerId st = Some t"
    and "\<And>b st t. actionStates w b = Some st \<Longrightarrow> timerId st = Some t \<Longrightarrow> timers w t = Some b"
    and "\<And>t b. timers w t = Some b \<Longrightarrow> t < fresh w"
  shows "scheduler_inv w"
  using assms unfolding scheduler_inv_def timers_owned_def timers_active_def timers_known_def
  by blast

lemma scheduler_invD:
  assumes "scheduler_inv w"
  shows "timers w t = Some b \<Longrightarrow> \<exists>st. actionStates w b = Some st \<and> timerId st = Some t"
    and "actionStates w b = Some st \<Longrightarrow> timerId st = Some t \<Longrightarrow> timers w t = Some b"
    and "timers w t = Some b \<Longrightarrow> t < fresh w"
  using assms unfolding scheduler_inv_def timers_owned_def timers_active_def timers_known_def
  by blast+

lemma scheduler_inv_init: "scheduler_inv init"
  by (rule scheduler_invI) (simp_all add: init_def)

lemma scheduler_inv_trace [simp]:
  "scheduler_inv (w\<lparr>trace := tr\<rparr>) = scheduler_inv w"
  by (simp add: scheduler_inv_def timers_owned_def timers_active_def timers_known_def)

lemma scheduler_inv_fetch:
  "scheduler_inv (snd (fetchDataAndUpdateKey a s net w)) = scheduler_inv w"
proof -
  obtain es where "fetchDataAndUpdateKey a s net w = (None, w\<lparr>trace := trace w @ es\<rparr>)"
    using fetch_frame by blast
  then show ?thesis by simp
qed

lemma stop_eq:
  assumes "actionStates w a = Some st"
  shows "timers (stopPollingForAction a w)
           = (case timerId st of None \<Rightarrow> timers w | Some t \<Rightarrow> (timers w)(t := None))"
    and "actionStates (stopPollingForAction a w) = (actionStates w)(a \<mapsto> st\<lparr>timerId := None\<rparr>)"
  using assms by (auto simp add: stopPollingForAction_def split: option.splits)

lemma scheduler_inv_stop:
  assumes "scheduler_inv w"
  shows "scheduler_inv (stopPollingForAction a w)"
proof (cases "actionStates w a")
  case None
  with assms show ?thesis by (simp add: stopPollingForAction_def)
next
  case (Some st)
  note own = scheduler_invD(1) [OF assms] and act = scheduler_invD(2) [OF assms]
    and known = scheduler_invD(3) [OF assms]
  let ?w = "stopPollingForAction a w"
  have T: "timers ?w = (case timerId st of None \<Rightarrow> timers w | Some t \<Rightarrow> (timers w)(t := None))"
    and S: "actionStates ?w = (actionStates w)(a \<mapsto> st\<lparr>timerId := None\<rparr>)"
    using stop_eq [OF Some] by simp_all
  show ?thesis
  proof (rule scheduler_invI)
    fix t b
    assume "timers ?w t = Some b"
    then have tb: "timers w t = Some b" and nt: "timerId st \<noteq> Some t"
      unfolding T by (auto split: option.splits if_splits)
    then obtain st' where st': "actionStates w b = Some st'" "timerId st' = Some t"
      using own by blast
    with Some nt have "b \<noteq> a" by auto
    with st' show "\<exists>st. actionStates ?w b = Some st \<and> timerId st = Some t"
      unfolding S by simp
  next
    fix b st' t
    assume "actionStates ?w b = Some st'" and t: "timerId st' = Some t"
    then have ba: "b \<noteq> a" and "actionStates w b = Some st'"
      unfolding S by (auto split: if_splits)
    with t have tb: "timers w t = Some b" using act by blast
    have "timerId st \<noteq> Some t"
    proof
      assume "timerId st = Some t"
      with Some have "timers w t = Some a" using act by blast
      with tb ba show False by simp
    qed
    with tb show "timers ?w t = Some b"
      unfolding T by (auto split: option.splits)
  next
    fix t b
    assume "timers ?w t = Some b"
    then have "timers w t = Some b"
      unfolding T by (auto split: option.splits if_splits)
    then show "t < fresh ?w" using known by simp
  qed
qed

lemma stop_no_timer:
  assumes "scheduler_inv w" and "actionStates w a = Some st"
  shows "\<exists>st'. actionStates (stopPollingForAction a w) a = Some st' \<and> timerId st' = None
            \<and> settings st' = settings st"
  using stop_eq(2) [OF assms(2)] by simp

lemma scheduler_inv_apply:
  assumes "scheduler_inv w" and "actionStates w a = Some st0"
  shows "scheduler_inv (snd (applySettingsAndStartPolling a s net w))"
proof -
  let ?w1 = "stopPollingForAction a w"
  have inv1: "scheduler_inv ?w1" using assms(1) by (rule scheduler_inv_stop)
  note own = scheduler_invD(1) [OF inv1] and act = scheduler_invD(2) [OF inv1]
    and known = scheduler_invD(3) [OF inv1]
  have st1: "actionStates ?w1 a = Some (st0\<lparr>timerId := None\<rparr>)"
    using stop_eq(2) [OF assms(2)] by simp
  obtain es where f: "fetchDataAndUpdateKey a s net ?w1 = (None, ?w1\<lparr>trace := trace ?w1 @ es\<rparr>)"
    using fetch_frame by blast
  show ?thesis
  proof (cases "isValidSettings s")
    case False
    then show ?thesis using inv1 by (simp add: apply_invalid emit_def)
  next
    case True
    let ?n = "fresh w"
    let ?w' = "snd (applySettingsAndStartPolling a s net w)"
    have T: "timers ?w' = (timers ?w1)(?n \<mapsto> a)"
      and S: "actionStates ?w' = (actionStates ?w1)(a \<mapsto> st0\<lparr>timerId := Some ?n\<rparr>)"
      and F: "fresh ?w' = Suc ?n"
      using True st1 f
      by (simp_all add: applySettingsAndStartPolling_def start_polling_def setInterval_def Let_def)
    have free: "timers ?w1 ?n = None"
    proof (cases "timers ?w1 ?n")
      case None then show ?thesis .
    next
      case (Some b)
      then have "?n < fresh ?w1" using known by blast
      then show ?thesis by simp
    qed
    show ?thesis
    proof (rule scheduler_invI)
      fix t b
      assume tb: "timers ?w' t = Some b"
      show "\<exists>st. actionStates ?w' b = Some st \<and> timerId st = Some t"
      proof (cases "t = ?n")
        case True
        with tb have "b = a" unfolding T by simp
        with True show ?thesis unfolding S by simp
      next
        case False
        with tb have old: "timers ?w1 t = Some b" unfolding T by simp
        then obtain st where st: "actionStates ?w1 b = Some st" "timerId st = Some t"
          using own by blast
        with st1 have "b \<noteq> a" by auto
        with st show ?thesis unfolding S by simp
      qed
    next
      fix b st t
      assume bs: "actionStates ?w' b = Some st" and t: "timerId st = Some t"
      show "timers ?w' t = Some b"
      proof (cases "b = a")
        case True
        with bs t have "t = ?n" unfolding S by auto
        with True show ?thesis unfolding T by simp
      next
        case False
        with bs have "actionStates ?w1 b = Some st" unfolding S by simp
        with t have old: "timers ?w1 t = Some b" using act by blast
        with free have "t \<noteq> ?n" by auto
        with old show ?thesis unfolding T by simp
      qed
    next
      fix t b
      assume tb: "timers ?w' t = Some b"
      show "t < fresh ?w'"
      proof (cases "t = ?n")
        case True
        then show ?thesis unfolding F by simp
      next
        case False
        with tb have "timers ?w1 t = Some b" unfolding T by simp
        then have "t < fresh ?w1" using known by blast
        then show ?thesis unfolding F by simp
      qed
    qed
  qed
qed

lemma scheduler_inv_record:
  assumes "scheduler_inv w"
    and "case actionStates w a of None \<Rightarrow> timerId st = None | Some st0 \<Rightarrow> timerId st = timerId st0"
  shows "scheduler_inv (w\<lparr>actionStates := (actionStates w)(a \<mapsto> st)\<rparr>)"
proof (rule scheduler_invI)
  note own = scheduler_invD(1) [OF assms(1)] and act = scheduler_invD(2) [OF assms(1)]
    and known = scheduler_invD(3) [OF assms(1)]
  let ?w = "w\<lparr>actionStates := (actionStates w)(a \<mapsto> st)\<rparr>"
  {
    fix t b
    assume "timers ?w t = Some b"
    then have tb: "timers w t = Some b" by simp
    then obtain st' where "actionStates w b = Some st'" "timerId st' = Some t"
      using own by blast
    with assms(2) show "\<exists>st. actionStates ?w b = Some st \<and> timerId st = Some t"
      by (cases "b = a") auto
  next
    fix b st' t
    assume bs: "actionStates ?w b = Some st'" and t: "timerId st' = Some t"
    show "timers ?w t = Some b"
    proof (cases "b = a")
      case True
      with bs t have "timerId st = Some t" by simp
      with assms(2) obtain st0 where "actionStates w a = Some st0" "timerId st0 = Some t"
        by (cases "actionStates w a") auto
      with True show ?thesis using act by simp
    next
      case False
      with bs t show ?thesis using act by simp
    qed
  next
    fix t b
    assume "timers ?w t = Some b"
    then show "t < fresh ?w" using known by simp
  }
qed

text \<open>
  A handler that runs to its end without being overtaken, and every timer tick, keeps the
  invariant, with one exception: \<open>onWillAppear\<close> of an instance whose record holds a
  timer. Nothing is said here of handlers that overlap at an \<^verbatim>\<open>await\<close>.
\<close>

lemma scheduler_inv_preserved:
  assumes "scheduler_inv w"
  shows "scheduler_inv (snd (onDidReceiveSettings a s net w))"
    and "scheduler_inv (snd (onWillDisappear a w))"
    and "scheduler_inv (snd (onKeyDown a net w))"
    and "scheduler_inv (snd (timer_callback a t net w))"
    and "(\<forall>st. actionStates w a = Some st \<longrightarrow> timerId st = None) \<Longrightarrow>
           scheduler_inv (snd (onWillAppear a payload net w))"
proof -
  show "scheduler_inv (snd (onDidReceiveSettings a s net w))"
  proof (cases "actionStates w a")
    case None
    let ?st = "\<lparr>settings = s, timerId = None\<rparr>"
    have "scheduler_inv (w\<lparr>actionStates := (actionStates w)(a \<mapsto> ?st)\<rparr>)"
      using assms None by (intro scheduler_inv_record) simp_all
    then have "scheduler_inv ((emit (Log (WarnNoPriorState a)) w)
                  \<lparr>actionStates := (actionStates w)(a \<mapsto> ?st)\<rparr>)"
      by (simp add: emit_def scheduler_inv_def timers_owned_def timers_active_def timers_known_def)
    from scheduler_inv_apply [OF this, of a ?st s net] None
    show ?thesis by (simp add: onDidReceiveSettings_def store_settings_def Let_def)
  next
    case (Some st)
    have "scheduler_inv (w\<lparr>actionStates := (actionStates w)(a \<mapsto> st\<lparr>settings := s\<rparr>)\<rparr>)"
      using assms Some by (intro scheduler_inv_record) simp_all
    from scheduler_inv_apply [OF this, of a "st\<lparr>settings := s\<rparr>" s net] Some
    show ?thesis by (simp add: onDidReceiveSettings_def store_settings_def Let_def)
  qed
next
  let ?w1 = "stopPollingForAction a w"
  have inv1: "scheduler_inv ?w1" using assms by (rule scheduler_inv_stop)
  note own = scheduler_invD(1) [OF inv1] and act = scheduler_invD(2) [OF inv1]
    and known = scheduler_invD(3) [OF inv1]
  have none: "\<And>st. actionStates ?w1 a = Some st \<Longrightarrow> timerId st = None"
    by (cases "actionStates w a") (auto simp add: stop_states_self)
  have "scheduler_inv (?w1\<lparr>actionStates := (actionStates ?w1)(a := None)\<rparr>)"
  proof (rule scheduler_invI)
    fix t b
    assume "timers (?w1\<lparr>actionStates := (actionStates ?w1)(a := None)\<rparr>) t = Some b"
    then have tb: "timers ?w1 t = Some b" by simp
    then obtain st where st: "actionStates ?w1 b = Some st" "timerId st = Some t"
      using own by blast
    with none have "b \<noteq> a" by auto
    with st show "\<exists>st. actionStates (?w1\<lparr>actionStates := (actionStates ?w1)(a := None)\<rparr>) b = Some st
                     \<and> timerId st = Some t"
      by simp
  next
    fix b st t
    assume "actionStates (?w1\<lparr>actionStates := (actionStates ?w1)(a := None)\<rparr>) b = Some st"
      and "timerId st = Some t"
    then show "timers (?w1\<lparr>actionStates := (actionStates ?w1)(a := None)\<rparr>) t = Some b"
      using act by (cases "b = a") simp_all
  next
    fix t b
    assume "timers (?w1\<lparr>actionStates := (actionStates ?w1)(a := None)\<rparr>) t = Some b"
    then show "t < fresh (?w1\<lparr>actionStates := (actionStates ?w1)(a := None)\<rparr>)"
      using known by simp
  qed
  then show "scheduler_inv (snd (onWillDisappear a w))"
    by (simp add: onWillDisappear_def Let_def)
next
  show "scheduler_inv (snd (onKeyDown a net w))"
    using assms by (simp add: onKeyDown_def emit_def scheduler_inv_fetch split: option.splits)
next
  show "scheduler_inv (snd (timer_callback a t net w))"
    using assms by (simp add: timer_callback_def emit_def scheduler_inv_fetch split: option.splits)
next
  assume idle: "\<forall>st. actionStates w a = Some st \<longrightarrow> timerId st = None"
  let ?s = "case payload of None \<Rightarrow> emptySettings | Some x \<Rightarrow> x"
  let ?st = "\<lparr>settings = ?s, timerId = None\<rparr>"
  have "scheduler_inv (w\<lparr>actionStates := (actionStates w)(a \<mapsto> ?st)\<rparr>)"
    using assms idle by (intro scheduler_inv_record) (simp_all split: option.splits)
  from scheduler_inv_apply [OF this, of a ?st ?s net]
  show "scheduler_inv (snd (onWillAppear a payload net w))"
    by (simp add: onWillAppear_def Let_def)
qed

lemma one_timer_per_instance:
  assumes "scheduler_inv w" and "timers w t = Some a" and "timers w t' = Some a"
  shows "t = t'"
proof -
  obtain st where "actionStates w a = Some st" "timerId st = Some t"
    using scheduler_invD(1) [OF assms(1,2)] by blast
  moreover obtain st' where "actionStates w a = Some st'" "timerId st' = Some t'"
    using scheduler_invD(1) [OF assms(1,3)] by blast
  ultimately show ?thesis by simp
qed

lemma polling_world_inv: "scheduler_inv polling_world"
  unfolding polling_world_def
  using scheduler_inv_preserved(5) [OF scheduler_inv_init, of "''key''"]
  by (simp add: init_def)

lemma second_appear_breaks_inv:
  "\<not> scheduler_inv (snd (onWillAppear ''key'' (Some local_settings) ok_response polling_world))"
proof
  let ?w = "snd (onWillAppear ''key'' (Some local_settings) ok_response polling_world)"
  assume "scheduler_inv ?w"
  moreover have "timers ?w 0 = Some ''key''" and "timers ?w 1 = Some ''key''"
    by code_simp+
  ultimately have "(0::nat) = 1" by (rule one_timer_per_instance)
  then show False by simp
qed

end
